theory Spec2Isabelle
  imports Complex_Main "HOL-Library.Product_Lexorder"
begin

section \<open>Balanced cluster refinement (geometric\_sampling/clustering/agg.py)\<close>

text \<open>
  The class \<open>Agg\<close> repairs a hard clustering by moving fractional membership mass between
  clusters. The arrays of the source are numpy arrays of 64-bit floats; here a vector is a
  list of reals and a matrix a list of rows, and every operation is the exact one on the
  reals. Shapes are not part of the list type: an index is read with \<open>!\<close>, and the theorems
  name the shapes and index ranges they rely on (\<open>well_shaped\<close> below). Where \<open>fit\<close> can
  raise on arrays that are well shaped, and where it raises on a weight vector of the wrong
  length, the exception is a value of a sum type.
\<close>

subsection \<open>Vectors and matrices\<close>

type_synonym vec = "real list"
type_synonym mat = "real list list"

definition np_sum :: "vec \<Rightarrow> real" where
  "np_sum v = sum_list v"

text \<open>
  \<open>a * b\<close> on one-dimensional arrays: element by element when the lengths agree, and an
  array of length one is broadcast over the other. For two lengths that differ and are both
  not one numpy raises \<open>ValueError\<close>; the only arrays of the source whose lengths can so
  disagree are \<open>w\<close> and the rows of \<open>X\<close> and \<open>Tij\<close>, and \<open>fit_init\<close> below raises where
  they first meet.
\<close>

definition vmul :: "vec \<Rightarrow> vec \<Rightarrow> vec" where
  "vmul a b =
     (if length a = length b then map2 (*) a b
      else if length a = 1 then map (\<lambda>y. a ! 0 * y) b
      else if length b = 1 then map (\<lambda>x. x * b ! 0) a
      else map2 (*) a b)"

definition broadcastable :: "nat \<Rightarrow> nat \<Rightarrow> bool" where
  "broadcastable p q \<longleftrightarrow> p = q \<or> p = 1 \<or> q = 1"

text \<open>
  \<open>a - b\<close> is only taken of two rows of \<open>Tij\<close> and of a row of \<open>Y\<close> and a centre, which
  have the same length.
\<close>

definition vsub :: "vec \<Rightarrow> vec \<Rightarrow> vec" where
  "vsub a b = map2 (-) a b"

definition vadd_scalar :: "vec \<Rightarrow> real \<Rightarrow> vec" where
  "vadd_scalar a c = map (\<lambda>x. x + c) a"

definition vsquare :: "vec \<Rightarrow> vec" where
  "vsquare a = map (\<lambda>x. x\<^sup>2) a"

definition linalg_norm :: "vec \<Rightarrow> real" where
  "linalg_norm v = sqrt (np_sum (vsquare v))"

text \<open>
  The source uses the norm only as \<open>np.linalg.norm(v) ** 2\<close>, which on the reals is the sum
  of the squares (\<open>linalg_norm_sq_eq\<close> below) and can be evaluated without a square root.
\<close>

definition linalg_norm_sq :: "vec \<Rightarrow> real" where
  "linalg_norm_sq v = np_sum (vsquare v)"

text \<open>\<open>M[i, j] += d\<close> on a matrix, for \<open>i\<close> and \<open>j\<close> in range.\<close>

definition add_at :: "mat \<Rightarrow> nat \<Rightarrow> nat \<Rightarrow> real \<Rightarrow> mat" where
  "add_at M i j d = M[i := (M ! i)[j := M ! i ! j + d]]"

subsection \<open>Floats that are not numbers\<close>

text \<open>
  The quotient of two numpy floats with a zero denominator is \<open>inf\<close>, \<open>-inf\<close> or \<open>nan\<close>
  (numpy warns, it does not raise), and \<open>np.inf\<close> is the score of an infeasible move. The
  results of the divisions of the source are therefore values of \<open>npfloat\<close>; a zero
  denominator is taken as \<open>+0.0\<close>.
\<close>

datatype npfloat = Fin real | PInf | NInf | NaN

definition fdiv :: "real \<Rightarrow> real \<Rightarrow> npfloat" where
  "fdiv a b =
     (if b \<noteq> 0 then Fin (a / b)
      else if 0 < a then PInf else if a < 0 then NInf else NaN)"

fun fneg :: "npfloat \<Rightarrow> npfloat" where
  "fneg (Fin r) = Fin (- r)"
| "fneg PInf = NInf"
| "fneg NInf = PInf"
| "fneg NaN = NaN"

text \<open>
  \<open>np.argsort\<close> orders \<open>-inf\<close> first, then the finite values, then \<open>inf\<close>, and puts
  \<open>nan\<close> last; \<open>np.argmin\<close> returns the first \<open>nan\<close> if there is one and the first
  least value otherwise.
\<close>

fun sort_rank :: "npfloat \<Rightarrow> nat \<times> real" where
  "sort_rank NInf = (0, 0)"
| "sort_rank (Fin r) = (1, r)"
| "sort_rank PInf = (2, 0)"
| "sort_rank NaN = (3, 0)"

fun min_rank :: "npfloat \<Rightarrow> nat \<times> real" where
  "min_rank NaN = (0, 0)"
| "min_rank NInf = (1, 0)"
| "min_rank (Fin r) = (2, r)"
| "min_rank PInf = (3, 0)"

text \<open>The comparison \<open>a < b\<close> of two floats: false as soon as one of them is \<open>nan\<close>.\<close>

definition flt :: "npfloat \<Rightarrow> npfloat \<Rightarrow> bool" where
  "flt a b \<longleftrightarrow> a \<noteq> NaN \<and> b \<noteq> NaN \<and> sort_rank a < sort_rank b"

text \<open>
  Python's built-in \<open>min(a, b)\<close> keeps \<open>a\<close> unless \<open>b < a\<close>, and \<open>max(a, b)\<close> keeps \<open>a\<close>
  unless \<open>b > a\<close>; with more arguments they go on from left to right.
\<close>

definition py_min :: "npfloat \<Rightarrow> npfloat \<Rightarrow> npfloat" where
  "py_min a b = (if flt b a then b else a)"

definition py_max :: "npfloat \<Rightarrow> npfloat \<Rightarrow> npfloat" where
  "py_max a b = (if flt a b then b else a)"

fun argmin_from :: "nat \<Rightarrow> nat \<Rightarrow> npfloat \<Rightarrow> npfloat list \<Rightarrow> nat" where
  "argmin_from pos best bv [] = best"
| "argmin_from pos best bv (x # xs) =
     (if min_rank x < min_rank bv then argmin_from (Suc pos) pos x xs
      else argmin_from (Suc pos) best bv xs)"

text \<open>
  \<open>np.argmin\<close> raises on an empty list. The source calls it on one score per cluster and
  only for a unit that has a nonzero entry, so never on an empty list.
\<close>

definition np_argmin :: "npfloat list \<Rightarrow> nat" where
  "np_argmin xs = (case xs of [] \<Rightarrow> 0 | x # rest \<Rightarrow> argmin_from 1 0 x rest)"

subsection \<open>The state of an \<open>Agg\<close> object\<close>

text \<open>
  The ways a call can end without a state: the clustering routine rejects its input, numpy
  raises \<open>IndexError\<close> or \<open>ValueError\<close>, or (\<open>NonFinite\<close>, which is no exception of the
  source) a transfer amount is \<open>-inf\<close> and the membership leaves the reals, where this
  model does not follow it.
\<close>

datatype error = KMeansError | IndexError | ValueError | NonFinite

text \<open>
  The fields of the object. \<open>__init__\<close> sets \<open>k\<close>, \<open>tolerance\<close> and the optional initial
  centroids and leaves the other fields \<open>None\<close> until \<open>fit\<close> sets them, so they are the
  arguments of \<open>fit\<close> below and the record is the object from the seed clustering on. The
  random generator \<open>rng\<close> is never used.
\<close>

record agg =
  k :: int
  tolerance :: int
  Y_features :: mat
  X_features :: mat
  weights :: vec
  m :: nat
  N :: nat
  centroids :: mat
  labels :: "nat list"
  membership :: mat
  Ti :: vec
  Tij :: mat

text \<open>The threshold \<open>10**-self.tolerance\<close>.\<close>

definition tol :: "agg \<Rightarrow> real" where
  "tol s = 10 powi (- tolerance s)"

text \<open>
  \<open>A.shape[1]\<close>. A list of rows does not tell the number of columns of a matrix without
  rows, which is taken as 0; \<open>self.m\<close> is only read for the shape of \<open>Tij\<close>, whose row sums
  \<open>Ti\<close> are zero for such a matrix whatever \<open>m\<close> is.
\<close>

definition ncols :: "mat \<Rightarrow> nat" where
  "ncols A = (case A of [] \<Rightarrow> 0 | r # _ \<Rightarrow> length r)"

subsection \<open>Derived totals\<close>

text \<open>
  \<open>_generate_Tij\<close>: the product \<open>X[:, :, newaxis] * M[:, newaxis, :]\<close> has shape
  \<open>(N, m, k)\<close>; summed over the units and transposed it is the \<open>k \<times> m\<close> matrix with
  \<open>Tij[c, j] = \<Sum>i. X[i, j] * M[i, c]\<close>.
\<close>

definition generate_Tij :: "agg \<Rightarrow> mat" where
  "generate_Tij s =
     map (\<lambda>c. map (\<lambda>j. np_sum (map (\<lambda>i. X_features s ! i ! j * membership s ! i ! c)
                                   [0..<N s]))
                   [0..<m s])
         [0..<nat (k s)]"

text \<open>\<open>_generate_Ti\<close> recomputes \<open>Tij\<close> from the membership; it does not read the field.\<close>

definition generate_Ti :: "agg \<Rightarrow> vec" where
  "generate_Ti s = map (\<lambda>row. np_sum (vmul (weights s) row)) (generate_Tij s)"

definition weighet_norm :: "agg \<Rightarrow> vec \<Rightarrow> real" where
  "weighet_norm s array = np_sum (vmul (weights s) (vsquare array))"

definition minimum_percent :: "agg \<Rightarrow> nat \<Rightarrow> nat \<Rightarrow> nat \<Rightarrow> npfloat" where
  "minimum_percent s data_index from_index to_index =
     fdiv (np_sum (vmul (vmul (weights s) (X_features s ! data_index))
                        (vsub (Tij s ! from_index) (Tij s ! to_index))))
          (2 * np_sum (vmul (weights s) (vsquare (X_features s ! data_index))))"

definition zero_percent :: "agg \<Rightarrow> nat \<Rightarrow> nat \<Rightarrow> npfloat" where
  "zero_percent s data_index cluster =
     fdiv (np_sum (vmul (vmul (weights s) (X_features s ! data_index)) (Tij s ! cluster)))
          (np_sum (vmul (weights s) (vsquare (X_features s ! data_index))))"

subsection \<open>Scoring\<close>

definition transfer_score :: "agg \<Rightarrow> nat \<Rightarrow> nat \<Rightarrow> nat \<Rightarrow> npfloat" where
  "transfer_score s data_indx current_cluster_indx new_cluster_indx =
     (if flt (Fin (tol s))
             (minimum_percent s data_indx current_cluster_indx new_cluster_indx)
      then fdiv (linalg_norm_sq (vsub (Y_features s ! data_indx)
                                      (centroids s ! new_cluster_indx))
                 - linalg_norm_sq (vsub (Y_features s ! data_indx)
                                        (centroids s ! current_cluster_indx)))
                (weighet_norm s
                   (vadd_scalar (vsub (Tij s ! current_cluster_indx)
                                      (Tij s ! new_cluster_indx))
                                (1 / 10 ^ 9)))
      else PInf)"

text \<open>\<open>np.nonzero(row)[0]\<close>: the columns of the nonzero entries, in order.\<close>

definition np_nonzero :: "vec \<Rightarrow> nat list" where
  "np_nonzero row = filter (\<lambda>c. row ! c \<noteq> 0) [0..<length row]"

definition record_for :: "agg \<Rightarrow> nat \<Rightarrow> nat \<Rightarrow> npfloat \<times> nat \<times> nat \<times> nat" where
  "record_for s i j_old =
     (let j_new_min = np_argmin (map (\<lambda>j_new. transfer_score s i j_old j_new)
                                     [0..<nat (k s)]);
          cost = transfer_score s i j_old j_new_min
      in (cost, i, j_old, j_new_min))"

definition all_costs :: "agg \<Rightarrow> (npfloat \<times> nat \<times> nat \<times> nat) list" where
  "all_costs s =
     concat (map (\<lambda>i. map (\<lambda>j_old. record_for s i j_old)
                           (np_nonzero (membership s ! i)))
                 [0..<N s])"

text \<open>
  \<open>_get_transfer_records\<close> sorts the records by cost and returns the columns
  \<open>(i, j_old, j_new)\<close> of the \<open>top_m\<close> cheapest: the cost column is dropped. With no record
  at all, \<open>np.array([])\<close> is one-dimensional and \<open>costs[:, 0]\<close> raises \<open>IndexError\<close>.
  The source leaves the order of records of equal cost to numpy's default sort; here they
  keep the order of their creation.
\<close>

definition get_transfer_records :: "agg \<Rightarrow> nat \<Rightarrow> error + (nat \<times> nat \<times> nat) list" where
  "get_transfer_records s top_m =
     (let costs = all_costs s
      in if costs = [] then Inl IndexError
         else Inr (map snd (take top_m (sort_key (\<lambda>r. sort_rank (fst r)) costs))))"

subsection \<open>Executing a transfer\<close>

definition same_side :: "agg \<Rightarrow> nat \<Rightarrow> nat \<Rightarrow> bool" where
  "same_side s from_index to_index \<longleftrightarrow>
     (Ti s ! from_index \<ge> - tol s \<and> Ti s ! to_index \<ge> - tol s)
     \<or> (Ti s ! from_index \<le> tol s \<and> Ti s ! to_index \<le> tol s)"

text \<open>The local variable \<open>transfer_percent\<close> of \<open>_transfer\<close>.\<close>

definition transfer_percent :: "agg \<Rightarrow> nat \<Rightarrow> nat \<Rightarrow> nat \<Rightarrow> npfloat" where
  "transfer_percent s data_index from_index to_index =
     (if same_side s from_index to_index
      then py_min (Fin (membership s ! data_index ! from_index))
                  (minimum_percent s data_index from_index to_index)
      else py_min (py_min (Fin (membership s ! data_index ! from_index))
                          (py_max (Fin 0) (zero_percent s data_index from_index)))
                  (py_max (Fin 0) (fneg (zero_percent s data_index to_index))))"

text \<open>The two assignments \<open>M[i, from] -= p; M[i, to] += p\<close>, in this order.\<close>

definition move_mass :: "agg \<Rightarrow> nat \<Rightarrow> nat \<Rightarrow> nat \<Rightarrow> real \<Rightarrow> agg" where
  "move_mass s data_index from_index to_index p =
     (let M1 = add_at (membership s) data_index from_index (- p);
          M2 = add_at M1 data_index to_index p
      in s\<lparr>membership := M2\<rparr>)"

definition transfer :: "agg \<Rightarrow> nat \<Rightarrow> nat \<Rightarrow> nat \<Rightarrow> error + agg" where
  "transfer s data_index from_index to_index =
     (case transfer_percent s data_index from_index to_index of
        Fin p \<Rightarrow> Inr (move_mass s data_index from_index to_index p)
      | _ \<Rightarrow> Inl NonFinite)"

text \<open>
  \<open>_no_transfer_possible\<close> reads entry \<open>[0, 0]\<close> of the records, which is the unit index of
  the cheapest record (an integer), and compares it with \<open>np.inf\<close>.
\<close>

definition no_transfer_possible :: "(nat \<times> nat \<times> nat) list \<Rightarrow> bool" where
  "no_transfer_possible transfer_records \<longleftrightarrow>
     Fin (real (fst (hd transfer_records))) = PInf"

text \<open>\<open>np.linalg.norm\<close> of the difference of two floats is its absolute value.\<close>

definition is_transfer_possible :: "agg \<Rightarrow> nat \<Rightarrow> nat \<Rightarrow> bool" where
  "is_transfer_possible s from_cluster to_cluster \<longleftrightarrow>
     \<bar>Ti s ! from_cluster - Ti s ! to_cluster\<bar> > tol s"

definition stop_codition :: "agg \<Rightarrow> int \<Rightarrow> bool" where
  "stop_codition s t \<longleftrightarrow> list_all (\<lambda>x. \<bar>x\<bar> < 10 powi (- t)) (Ti s)"

text \<open>
  \<open>_update_centroids\<close>: \<open>np.mean\<close> over the units of \<open>Y[i, d] * M[i, c]\<close>, transposed.
  The loop reaches it only with at least one unit, since without units there is no record.
\<close>

definition update_centroids :: "agg \<Rightarrow> agg" where
  "update_centroids s =
     s\<lparr>centroids :=
         map (\<lambda>c. map (\<lambda>d. np_sum (map (\<lambda>i. Y_features s ! i ! d * membership s ! i ! c)
                                       [0..<N s]) / real (N s))
                       [0..<ncols (Y_features s)])
             [0..<nat (k s)]\<rparr>"

subsection \<open>\<open>fit\<close>\<close>

text \<open>
  The hard clustering is scikit-learn's \<open>KMeans\<close>, which is not part of this repository:
  it is a parameter, called with \<open>n_clusters\<close>, \<open>init\<close> (\<open>None\<close> for \<open>"k-means++"\<close>),
  \<open>n_init\<close>, \<open>tol\<close> and the data, and returning either its own rejection of the input or
  \<open>cluster_centers_\<close> and \<open>labels_\<close>.
\<close>

type_synonym kmeans =
  "int \<Rightarrow> mat option \<Rightarrow> nat \<Rightarrow> real \<Rightarrow> mat \<Rightarrow> error + (mat \<times> nat list)"

text \<open>
  \<open>_generate_membership\<close>: \<open>np.zeros((N, k))\<close> raises \<open>ValueError\<close> on a negative dimension;
  \<open>labels[j]\<close> and \<open>membership[j, labels[j]]\<close> raise \<open>IndexError\<close> out of range.
\<close>

fun set_labels :: "nat list \<Rightarrow> nat list \<Rightarrow> mat \<Rightarrow> error + mat" where
  "set_labels lbls [] M = Inr M"
| "set_labels lbls (j # js) M =
     (if j < length lbls \<and> j < length M \<and> lbls ! j < length (M ! j)
      then set_labels lbls js (M[j := (M ! j)[lbls ! j := 1]])
      else Inl IndexError)"

definition generate_membership :: "agg \<Rightarrow> error + mat" where
  "generate_membership s =
     (if k s < 0 then Inl ValueError
      else set_labels (labels s) [0..<N s] (replicate (N s) (replicate (nat (k s)) 0)))"

text \<open>The two assignments \<open>self.Tij = ...; self.Ti = ...\<close> that follow every change of \<open>M\<close>.\<close>

definition refresh :: "agg \<Rightarrow> agg" where
  "refresh s = (let s1 = s\<lparr>Tij := generate_Tij s\<rparr> in s1\<lparr>Ti := generate_Ti s1\<rparr>)"

text \<open>The body of the \<open>for\<close> loop over the selected records, and the loop.\<close>

definition apply_record :: "agg \<Rightarrow> nat \<times> nat \<times> nat \<Rightarrow> error + agg" where
  "apply_record s r =
     (case r of (data_index, from_cluster_index, to_cluster_index) \<Rightarrow>
        if is_transfer_possible s from_cluster_index to_cluster_index
        then (case transfer s data_index from_cluster_index to_cluster_index of
                Inl e \<Rightarrow> Inl e
              | Inr s' \<Rightarrow> Inr (refresh s'))
        else Inr s)"

fun apply_records :: "agg \<Rightarrow> (nat \<times> nat \<times> nat) list \<Rightarrow> error + agg" where
  "apply_records s [] = Inr s"
| "apply_records s (r # rs) =
     (case apply_record s r of Inl e \<Rightarrow> Inl e | Inr s' \<Rightarrow> apply_records s' rs)"

text \<open>
  The \<open>while\<close> loop, with the counter \<open>iter_\<close> as second argument. The result is the
  state the loop is left with, or the exception that ended it, and the value of \<open>iter_\<close>
  at that moment. \<open>break\<close> leaves the loop with the state and the counter as they are.
\<close>

function fit_loop :: "agg \<Rightarrow> nat \<Rightarrow> (error + agg) \<times> nat" where
  "fit_loop s iter =
     (if \<not> stop_codition s (tolerance s) \<and> iter < 100
      then (case get_transfer_records s 1 of
              Inl e \<Rightarrow> (Inl e, iter)
            | Inr transfer_records \<Rightarrow>
                if no_transfer_possible transfer_records then (Inr s, iter)
                else (case apply_records s transfer_records of
                        Inl e \<Rightarrow> (Inl e, iter)
                      | Inr s' \<Rightarrow> fit_loop (update_centroids s') (iter + 1)))
      else (Inr s, iter))"
  by pat_completeness auto
termination
  by (relation "measure (\<lambda>(s, iter). 100 - iter)") auto

declare fit_loop.simps [simp del]

text \<open>
  The state right after the seed clustering: the fields set from the arguments, the
  clustering's centres and labels, the hard membership and the totals computed from it.
  Nothing is checked before the clustering is called. \<open>_generate_Ti\<close> is the first place
  where \<open>w\<close> is read: it multiplies \<open>w[newaxis, :]\<close> with \<open>Tij\<close>, and numpy raises
  \<open>ValueError\<close> there unless the length of \<open>w\<close> and the number of columns of \<open>X\<close> agree or
  one of them is one.
\<close>

definition fit_init :: "kmeans \<Rightarrow> int \<Rightarrow> mat option \<Rightarrow> int \<Rightarrow> mat \<Rightarrow> mat \<Rightarrow> vec \<Rightarrow> error + agg" where
  "fit_init kmeans_fit k0 initial_centroids tolerance0 Y X w =
     (case kmeans_fit k0 initial_centroids 10 (10 powi (- tolerance0)) Y of
        Inl e \<Rightarrow> Inl e
      | Inr (centers, lbls) \<Rightarrow>
          (let s0 = \<lparr>k = k0, tolerance = tolerance0, Y_features = Y, X_features = X,
                     weights = w, m = ncols X, N = length X, centroids = centers,
                     labels = lbls, membership = [], Ti = [], Tij = []\<rparr>
           in case generate_membership s0 of
                Inl e \<Rightarrow> Inl e
              | Inr M \<Rightarrow>
                  if broadcastable (length w) (ncols X)
                  then Inr (refresh (s0\<lparr>membership := M\<rparr>))
                  else Inl ValueError))"

definition fit :: "kmeans \<Rightarrow> int \<Rightarrow> mat option \<Rightarrow> int \<Rightarrow> mat \<Rightarrow> mat \<Rightarrow> vec \<Rightarrow> (error + agg) \<times> nat" where
  "fit kmeans_fit k0 initial_centroids tolerance0 Y X w =
     (case fit_init kmeans_fit k0 initial_centroids tolerance0 Y X w of
        Inl e \<Rightarrow> (Inl e, 0)
      | Inr s \<Rightarrow> fit_loop s 0)"

subsection \<open>Well-shaped states\<close>

definition well_shaped :: "agg \<Rightarrow> bool" where
  "well_shaped s \<longleftrightarrow>
     0 \<le> k s \<and> length (X_features s) = N s \<and> list_all (\<lambda>r. length r = m s) (X_features s)
     \<and> length (weights s) = m s \<and> length (Y_features s) = N s
     \<and> list_all (\<lambda>r. length r = ncols (Y_features s)) (Y_features s)
     \<and> length (centroids s) = nat (k s)
     \<and> list_all (\<lambda>r. length r = ncols (Y_features s)) (centroids s)
     \<and> length (membership s) = N s \<and> list_all (\<lambda>r. length r = nat (k s)) (membership s)
     \<and> length (Tij s) = nat (k s) \<and> list_all (\<lambda>r. length r = m s) (Tij s)
     \<and> length (Ti s) = nat (k s)"

definition total_mass :: "agg \<Rightarrow> real" where
  "total_mass s = np_sum (map np_sum (membership s))"

text \<open>Every row of the membership has one entry per cluster and sums to one.\<close>

definition unit_rows :: "agg \<Rightarrow> bool" where
  "unit_rows s \<longleftrightarrow>
     0 \<le> k s \<and> length (membership s) = N s
     \<and> list_all (\<lambda>r. length r = nat (k s) \<and> np_sum r = 1) (membership s)"

text \<open>A record names a unit and two clusters of the state.\<close>

definition in_range :: "agg \<Rightarrow> nat \<times> nat \<times> nat \<Rightarrow> bool" where
  "in_range s r \<longleftrightarrow> (case r of (i, f, t) \<Rightarrow> i < N s \<and> f < nat (k s) \<and> t < nat (k s))"

text \<open>The weights are not negative; the fields \<open>Tij\<close> and \<open>Ti\<close> are those of the membership.\<close>

definition nonneg_weights :: "agg \<Rightarrow> bool" where
  "nonneg_weights s \<longleftrightarrow> list_all (\<lambda>x. 0 \<le> x) (weights s)"

definition in_step :: "agg \<Rightarrow> bool" where
  "in_step s \<longleftrightarrow> Tij s = generate_Tij s \<and> Ti s = generate_Ti s"

text \<open>What holds of the state each time the loop tests its condition.\<close>

definition loop_inv :: "agg \<Rightarrow> bool" where
  "loop_inv s \<longleftrightarrow> well_shaped s \<and> unit_rows s \<and> in_step s \<and> nonneg_weights s"

subsection \<open>Example runs\<close>

text \<open>
  Four units on a line with one auxiliary variable, \<open>X = [[1], [1], [-1], [-1]]\<close>,
  \<open>w = [1]\<close>, clustered as \<open>{0, 1}\<close> and \<open>{2, 3}\<close>: the totals are \<open>Ti = [2, -2]\<close>.
  \<open>ex4\<close> is the state after the seed clustering.
\<close>

definition ex4_kmeans :: kmeans where
  "ex4_kmeans = (\<lambda>n_clusters init n_init t Y. Inr ([[1 / 2], [21 / 2]], [0, 0, 1, 1]))"

definition ex4 :: agg where
  "ex4 = \<lparr>k = 2, tolerance = 9, Y_features = [[0], [1], [10], [11]],
          X_features = [[1], [1], [- 1], [- 1]], weights = [1], m = 1, N = 4,
          centroids = [[1 / 2], [21 / 2]], labels = [0, 0, 1, 1],
          membership = [[1, 0], [1, 0], [0, 1], [0, 1]], Ti = [2, - 2],
          Tij = [[2], [- 2]]\<rparr>"

text \<open>The state \<open>fit\<close> ends with on this example, after two iterations.\<close>

definition ex4_final :: agg where
  "ex4_final = \<lparr>k = 2, tolerance = 9, Y_features = [[0], [1], [10], [11]],
          X_features = [[1], [1], [- 1], [- 1]], weights = [1], m = 1, N = 4,
          centroids = [[0], [11 / 2]], labels = [0, 0, 1, 1],
          membership = [[0, 1], [0, 1], [0, 1], [0, 1]], Ti = [0, 0],
          Tij = [[0], [0]]\<rparr>"

text \<open>
  Two units with two auxiliary variables that cancel under \<open>w = [1, 1]\<close>: both totals
  are zero from the start, while the rows of \<open>Tij\<close> differ.
\<close>

definition ex7_kmeans :: kmeans where
  "ex7_kmeans = (\<lambda>n_clusters init n_init t Y. Inr ([[0], [1]], [0, 1]))"

text \<open>The same run with the single weight \<open>w = [1]\<close>, which numpy broadcasts.\<close>

definition ex7_short_w :: agg where
  "ex7_short_w = \<lparr>k = 2, tolerance = 9, Y_features = [[0], [1]],
          X_features = [[1, - 1], [- 1, 1]], weights = [1], m = 2, N = 2,
          centroids = [[0], [1]], labels = [0, 1],
          membership = [[1, 0], [0, 1]], Ti = [0, 0],
          Tij = [[1, - 1], [- 1, 1]]\<rparr>"

definition ex7 :: agg where
  "ex7 = \<lparr>k = 2, tolerance = 9, Y_features = [[0], [1]],
          X_features = [[1, - 1], [- 1, 1]], weights = [1, 1], m = 2, N = 2,
          centroids = [[0], [1]], labels = [0, 1],
          membership = [[1, 0], [0, 1]], Ti = [0, 0],
          Tij = [[1, - 1], [- 1, 1]]\<rparr>"

text \<open>
  Two units with one auxiliary variable, \<open>X = [[-1e-9], [0]]\<close>, each in its own cluster:
  the rows of \<open>Tij\<close> differ by exactly the stabilizer.
\<close>

definition ex8_kmeans :: kmeans where
  "ex8_kmeans = (\<lambda>n_clusters init n_init t Y. Inr ([[0], [1]], [0, 1]))"

definition ex8 :: agg where
  "ex8 = \<lparr>k = 2, tolerance = 9, Y_features = [[0], [1]],
          X_features = [[- (1 / 10 ^ 9)], [0]], weights = [1], m = 1, N = 2,
          centroids = [[0], [1]], labels = [0, 1],
          membership = [[1, 0], [0, 1]], Ti = [- (1 / 10 ^ 9), 0],
          Tij = [[- (1 / 10 ^ 9)], [0]]\<rparr>"

text \<open>
  Three units with two auxiliary variables, \<open>X = [[2, 0], [0, -3/2], [0, 1]]\<close>,
  \<open>w = [1, 1]\<close>, clustered as \<open>{0, 1}\<close> and \<open>{2}\<close>: the totals are \<open>Ti = [1/2, 1]\<close>.
  \<open>ex6\<close> is the state after the seed clustering and \<open>ex6_moved\<close> the state after the
  first transfer.
\<close>

definition ex6_kmeans :: kmeans where
  "ex6_kmeans = (\<lambda>n_clusters init n_init t Y. Inr ([[1 / 2], [3]], [0, 0, 1]))"

definition ex6 :: agg where
  "ex6 = \<lparr>k = 2, tolerance = 9, Y_features = [[1], [0], [3]],
          X_features = [[2, 0], [0, - (3 / 2)], [0, 1]], weights = [1, 1], m = 2, N = 3,
          centroids = [[1 / 2], [3]], labels = [0, 0, 1],
          membership = [[1, 0], [1, 0], [0, 1]], Ti = [1 / 2, 1],
          Tij = [[2, - (3 / 2)], [0, 1]]\<rparr>"

definition ex6_moved :: agg where
  "ex6_moved = \<lparr>k = 2, tolerance = 9, Y_features = [[1], [0], [3]],
          X_features = [[2, 0], [0, - (3 / 2)], [0, 1]], weights = [1, 1], m = 2, N = 3,
          centroids = [[1 / 2], [3]], labels = [0, 0, 1],
          membership = [[1 / 2, 1 / 2], [1, 0], [0, 1]], Ti = [- (1 / 2), 2],
          Tij = [[1, - (3 / 2)], [1, 1]]\<rparr>"

text \<open>
  Two units with one auxiliary variable, \<open>X = [[3], [1]]\<close>, each in its own cluster: the
  totals \<open>Ti = [3, 1]\<close> are on the same side of zero.
\<close>

definition ex1v :: agg where
  "ex1v = \<lparr>k = 2, tolerance = 9, Y_features = [[0], [1]],
          X_features = [[3], [1]], weights = [1], m = 1, N = 2,
          centroids = [[0], [1]], labels = [0, 1],
          membership = [[1, 0], [0, 1]], Ti = [3, 1],
          Tij = [[3], [1]]\<rparr>"

subsection \<open>The weighted mean of the specification\<close>

text \<open>
  The centroid update as the specification words it, to compare \<open>update_centroids\<close>
  with: the centre of cluster \<open>c\<close> is \<open>(\<Sum>i. M[i, c] * Y[i]) / (\<Sum>i. M[i, c])\<close>.
\<close>

definition cluster_mass :: "agg \<Rightarrow> nat \<Rightarrow> real" where
  "cluster_mass s c = np_sum (map (\<lambda>i. membership s ! i ! c) [0..<N s])"

definition weighted_mean :: "agg \<Rightarrow> nat \<Rightarrow> vec" where
  "weighted_mean s c =
     map (\<lambda>d. np_sum (map (\<lambda>i. membership s ! i ! c * Y_features s ! i ! d) [0..<N s])
               / cluster_mass s c)
         [0..<ncols (Y_features s)]"

text \<open>
  The four-unit example after the transfer of the first iteration, and after the
  centroid update that ends the iteration.
\<close>

definition ex4_moved :: agg where
  "ex4_moved = \<lparr>k = 2, tolerance = 9, Y_features = [[0], [1], [10], [11]],
          X_features = [[1], [1], [- 1], [- 1]], weights = [1], m = 1, N = 4,
          centroids = [[1 / 2], [21 / 2]], labels = [0, 0, 1, 1],
          membership = [[1, 0], [0, 1], [0, 1], [0, 1]], Ti = [1, - 1],
          Tij = [[1], [- 1]]\<rparr>"

definition ex4_iter1 :: agg where
  "ex4_iter1 = \<lparr>k = 2, tolerance = 9, Y_features = [[0], [1], [10], [11]],
          X_features = [[1], [1], [- 1], [- 1]], weights = [1], m = 1, N = 4,
          centroids = [[0], [11 / 2]], labels = [0, 0, 1, 1],
          membership = [[1, 0], [0, 1], [0, 1], [0, 1]], Ti = [1, - 1],
          Tij = [[1], [- 1]]\<rparr>"

subsection \<open>Clustering routines for the examples\<close>

text \<open>
  scikit-learn's \<open>KMeans.fit\<close> rejects a cluster count below one or above the number of
  samples before it clusters; \<open>sklearn_checks\<close> puts that check in front of a routine.
\<close>

definition sklearn_checks :: "kmeans \<Rightarrow> kmeans" where
  "sklearn_checks km =
     (\<lambda>n_clusters init n_init t Y.
        if n_clusters < 1 \<or> int (length Y) < n_clusters then Inl KMeansError
        else km n_clusters init n_init t Y)"

text \<open>Three points on a line in one cluster, for a run with two rows of \<open>X\<close> only.\<close>

definition ex3_kmeans :: kmeans where
  "ex3_kmeans = (\<lambda>n_clusters init n_init t Y. Inr ([[1]], [0, 0, 0]))"

definition ex3 :: agg where
  "ex3 = \<lparr>k = 1, tolerance = 9, Y_features = [[0], [1], [2]],
          X_features = [[1], [- 1]], weights = [1], m = 1, N = 2,
          centroids = [[1]], labels = [0, 0, 0],
          membership = [[1], [1]], Ti = [0], Tij = [[0]]\<rparr>"

section \<open>Properties\<close>

subsection \<open>Lists and matrices\<close>

lemma sum_list_update_real:
  fixes xs :: "real list"
  shows "j < length xs \<Longrightarrow> sum_list (xs[j := v]) = sum_list xs + v - xs ! j"
proof (induction xs arbitrary: j)
  case Nil
  then show ?case by simp
next
  case (Cons x xs)
  then show ?case by (cases j) simp_all
qed

lemma length_add_at [simp]: "length (add_at M i j d) = length M"
  by (simp add: add_at_def)

lemma add_at_row_other: "i' \<noteq> i \<Longrightarrow> add_at M i j d ! i' = M ! i'"
  by (simp add: add_at_def)

lemma add_at_row_same: "i < length M \<Longrightarrow> add_at M i j d ! i = (M ! i)[j := M ! i ! j + d]"
  by (simp add: add_at_def)

lemma add_at_row_length: "length (add_at M i j d ! i') = length (M ! i')"
  by (cases "i' = i"; cases "i < length M") (simp_all add: add_at_def list_update_beyond)

lemma add_at_row_sum:
  assumes "i < length M" "j < length (M ! i)"
  shows "sum_list (add_at M i j d ! i) = sum_list (M ! i) + d"
  using assms by (simp add: add_at_row_same sum_list_update_real)

lemma linalg_norm_sq_eq: "linalg_norm_sq v = (linalg_norm v)\<^sup>2"
proof -
  have "0 \<le> sum_list (map (\<lambda>x. x\<^sup>2) v)"
    by (rule sum_list_nonneg) auto
  then show ?thesis
    by (simp add: linalg_norm_sq_def linalg_norm_def np_sum_def vsquare_def)
qed

subsection \<open>Thresholds and float comparisons\<close>

lemma tol_pos: "0 < tol s"
  by (simp add: tol_def power_int_def)

lemma flt_Fin_Fin [simp]: "flt (Fin a) (Fin b) \<longleftrightarrow> a < b"
  by (simp add: flt_def)

lemma py_max_zero: "py_max (Fin 0) x = PInf \<or> (\<exists>r. py_max (Fin 0) x = Fin r \<and> 0 \<le> r)"
  by (cases x) (auto simp: py_max_def flt_def)

lemma py_min_Fin_nonneg:
  assumes "y = PInf \<or> (\<exists>r. y = Fin r \<and> 0 \<le> r)" "0 \<le> a"
  shows "\<exists>r. py_min (Fin a) y = Fin r \<and> 0 \<le> r \<and> r \<le> a"
  using assms by (auto simp: py_min_def flt_def)

lemma py_min_Fin_Fin [simp]: "py_min (Fin a) (Fin b) = Fin (min a b)"
  by (auto simp: py_min_def)

lemma py_max_Fin_Fin [simp]: "py_max (Fin a) (Fin b) = Fin (max a b)"
  by (auto simp: py_max_def)

lemma fdiv_Fin [simp]: "b \<noteq> 0 \<Longrightarrow> fdiv a b = Fin (a / b)"
  by (simp add: fdiv_def)

lemma py_min_Fin_not_NInf: "y \<noteq> NInf \<Longrightarrow> \<exists>r. py_min (Fin a) y = Fin r"
  by (cases y) (simp_all add: py_min_def flt_def)

lemma py_max_zero_not_NInf: "py_max (Fin 0) x \<noteq> NInf"
  by (cases x) (simp_all add: py_max_def flt_def)

subsection \<open>Sums over the auxiliary variables\<close>

lemma vmul_same: "length a = length b \<Longrightarrow> vmul a b = map2 (*) a b"
  by (simp add: vmul_def)

lemma length_vmul [simp]: "length a = length b \<Longrightarrow> length (vmul a b) = length a"
  by (simp add: vmul_same)

lemma length_vsub [simp]: "length (vsub a b) = min (length a) (length b)"
  by (simp add: vsub_def)

lemma length_vsquare [simp]: "length (vsquare a) = length a"
  by (simp add: vsquare_def)

lemma length_vadd_scalar [simp]: "length (vadd_scalar a c) = length a"
  by (simp add: vadd_scalar_def)

lemma nth_vmul: "length a = length b \<Longrightarrow> j < length a \<Longrightarrow> vmul a b ! j = a ! j * b ! j"
  by (simp add: vmul_same)

lemma nth_vsub: "j < length a \<Longrightarrow> j < length b \<Longrightarrow> vsub a b ! j = a ! j - b ! j"
  by (simp add: vsub_def)

lemma nth_vsquare: "j < length a \<Longrightarrow> vsquare a ! j = (a ! j)\<^sup>2"
  by (simp add: vsquare_def)

lemma nth_vadd_scalar: "j < length a \<Longrightarrow> vadd_scalar a c ! j = a ! j + c"
  by (simp add: vadd_scalar_def)

lemma np_sum_nth: "np_sum v = (\<Sum>j<length v. v ! j)"
  by (simp add: np_sum_def sum_list_sum_nth atLeast0LessThan)

lemma np_sum_vmul:
  "length a = n \<Longrightarrow> length b = n \<Longrightarrow> np_sum (vmul a b) = (\<Sum>j<n. a ! j * b ! j)"
  by (simp add: np_sum_nth nth_vmul)

lemma well_shaped_Tij_row:
  "well_shaped s \<Longrightarrow> c < nat (k s) \<Longrightarrow> length (Tij s ! c) = m s"
  by (simp add: well_shaped_def list_all_length)

lemma well_shaped_weights: "well_shaped s \<Longrightarrow> length (weights s) = m s"
  by (simp add: well_shaped_def)

lemma well_shaped_rows:
  assumes "well_shaped s" "i < N s"
  shows "i < length (membership s)" "length (membership s ! i) = nat (k s)"
    "length (X_features s ! i) = m s" "i < length (X_features s)"
  using assms by (simp_all add: well_shaped_def list_all_length)

subsection \<open>Moving mass\<close>

lemma move_mass_fields [simp]:
  "k (move_mass s i f t p) = k s" "N (move_mass s i f t p) = N s"
  "m (move_mass s i f t p) = m s" "X_features (move_mass s i f t p) = X_features s"
  "weights (move_mass s i f t p) = weights s" "Y_features (move_mass s i f t p) = Y_features s"
  "tolerance (move_mass s i f t p) = tolerance s" "centroids (move_mass s i f t p) = centroids s"
  "Tij (move_mass s i f t p) = Tij s" "Ti (move_mass s i f t p) = Ti s"
  "labels (move_mass s i f t p) = labels s"
  by (simp_all add: move_mass_def Let_def)

lemma membership_move_mass:
  "membership (move_mass s i f t p) = add_at (add_at (membership s) i f (- p)) i t p"
  by (simp add: move_mass_def Let_def)

lemma length_membership_move_mass [simp]:
  "length (membership (move_mass s i f t p)) = length (membership s)"
  by (simp add: membership_move_mass)

lemma length_row_move_mass [simp]:
  "length (membership (move_mass s i f t p) ! i') = length (membership s ! i')"
  by (simp add: membership_move_mass add_at_row_length)

lemma move_mass_row_sum:
  assumes "i < length (membership s)" "f < length (membership s ! i)"
    "t < length (membership s ! i)"
  shows "sum_list (membership (move_mass s i f t p) ! i') = sum_list (membership s ! i')"
proof (cases "i' = i")
  case True
  have "sum_list (membership (move_mass s i f t p) ! i) =
        sum_list (add_at (membership s) i f (- p) ! i) + p"
    unfolding membership_move_mass using assms
    by (intro add_at_row_sum) (simp_all add: add_at_row_length)
  also have "\<dots> = sum_list (membership s ! i)"
    using assms by (simp add: add_at_row_sum)
  finally show ?thesis using True by simp
next
  case False
  then show ?thesis by (simp add: membership_move_mass add_at_row_other)
qed

lemma move_mass_entry_from:
  assumes "i < length (membership s)" "f < length (membership s ! i)" "f \<noteq> t"
  shows "membership (move_mass s i f t p) ! i ! f = membership s ! i ! f - p"
  using assms by (simp add: membership_move_mass add_at_def)

lemma move_mass_entry_to:
  assumes "i < length (membership s)" "t < length (membership s ! i)" "f \<noteq> t"
  shows "membership (move_mass s i f t p) ! i ! t = membership s ! i ! t + p"
  using assms by (simp add: membership_move_mass add_at_def)

lemma move_mass_entry_other:
  assumes "(i', c) \<noteq> (i, f)" "(i', c) \<noteq> (i, t)"
  shows "membership (move_mass s i f t p) ! i' ! c = membership s ! i' ! c"
proof (cases "i' = i")
  case False
  then show ?thesis by (simp add: membership_move_mass add_at_row_other)
next
  case True
  with assms have c: "c \<noteq> f" "c \<noteq> t" by auto
  show ?thesis
  proof (cases "i < length (membership s)")
    case True
    with c \<open>i' = i\<close> show ?thesis
      by (simp add: membership_move_mass add_at_def)
  next
    case False
    then show ?thesis
      by (simp add: membership_move_mass add_at_def list_update_beyond)
  qed
qed

lemma move_mass_total:
  assumes "i < length (membership s)" "f < length (membership s ! i)"
    "t < length (membership s ! i)"
  shows "total_mass (move_mass s i f t p) = total_mass s"
proof -
  have "map np_sum (membership (move_mass s i f t p)) = map np_sum (membership s)"
    by (rule nth_equalityI) (simp_all add: np_sum_def move_mass_row_sum [OF assms])
  then show ?thesis by (simp add: total_mass_def)
qed

lemma transfer_Inr:
  "transfer s i f t = Inr s' \<longleftrightarrow>
     (\<exists>p. transfer_percent s i f t = Fin p \<and> s' = move_mass s i f t p)"
  by (auto simp: transfer_def split: npfloat.splits)

lemma not_same_side_distinct: "\<not> same_side s f t \<Longrightarrow> f \<noteq> t"
  using tol_pos [of s] by (auto simp: same_side_def)

lemma is_transfer_possible_distinct: "is_transfer_possible s f t \<Longrightarrow> f \<noteq> t"
  using tol_pos [of s] by (auto simp: is_transfer_possible_def)

lemma straddle_percent:
  assumes "\<not> same_side s f t" "0 \<le> membership s ! i ! f"
  shows "\<exists>p. transfer_percent s i f t = Fin p \<and> 0 \<le> p \<and> p \<le> membership s ! i ! f"
proof -
  obtain q where q: "py_min (Fin (membership s ! i ! f)) (py_max (Fin 0) (zero_percent s i f)) = Fin q"
    "0 \<le> q" "q \<le> membership s ! i ! f"
    using py_min_Fin_nonneg [OF py_max_zero assms(2)] by blast
  obtain p where p: "py_min (Fin q) (py_max (Fin 0) (fneg (zero_percent s i t))) = Fin p"
    "0 \<le> p" "p \<le> q"
    using py_min_Fin_nonneg [OF py_max_zero q(2)] by blast
  show ?thesis using assms(1) q p by (simp add: transfer_percent_def)
qed

subsection \<open>The hard membership\<close>

lemma set_labels_rows:
  assumes "set_labels lbls js M = Inr M'" "distinct js"
    and "\<forall>j\<in>set js. M ! j = replicate K 0"
  shows "length M' = length M
       \<and> (\<forall>j<length M. j \<notin> set js \<longrightarrow> M' ! j = M ! j)
       \<and> (\<forall>j\<in>set js. length (M' ! j) = K \<and> sum_list (M' ! j) = 1)"
  using assms
proof (induction js arbitrary: M)
  case Nil
  then show ?case by simp
next
  case (Cons j js)
  let ?M1 = "M[j := (M ! j)[lbls ! j := 1]]"
  from Cons.prems(1) have ok: "j < length lbls" "j < length M" "lbls ! j < length (M ! j)"
    and rest: "set_labels lbls js ?M1 = Inr M'"
    by (simp_all split: if_splits)
  from Cons.prems(2) have d: "distinct js" "j \<notin> set js" by simp_all
  have z: "\<forall>i\<in>set js. ?M1 ! i = replicate K 0"
  proof
    fix i assume i: "i \<in> set js"
    with d(2) have "j \<noteq> i" by auto
    then have "?M1 ! i = M ! i" by simp
    with Cons.prems(3) i show "?M1 ! i = replicate K 0" by simp
  qed
  from Cons.IH [OF rest d(1) z]
  have IH: "length M' = length M" "\<forall>i<length M. i \<notin> set js \<longrightarrow> M' ! i = ?M1 ! i"
    "\<forall>i\<in>set js. length (M' ! i) = K \<and> sum_list (M' ! i) = 1"
    by simp_all
  have Mj: "M ! j = replicate K 0" using Cons.prems(3) by simp
  have "M' ! j = (replicate K 0)[lbls ! j := 1]"
    using IH(2) ok(2) d(2) Mj by simp
  moreover have "lbls ! j < K" using ok(3) Mj by simp
  ultimately have j: "length (M' ! j) = K \<and> sum_list (M' ! j) = 1"
    by (simp add: sum_list_update_real sum_list_replicate)
  have "\<forall>i<length M. i \<notin> set (j # js) \<longrightarrow> M' ! i = M ! i"
    using IH(2) by auto
  with IH(1,3) j show ?case by simp
qed

lemma generate_membership_rows:
  assumes "generate_membership s = Inr M"
  shows "0 \<le> k s \<and> length M = N s
         \<and> list_all (\<lambda>r. length r = nat (k s) \<and> np_sum r = 1) M"
proof -
  from assms have k: "0 \<le> k s"
    and sl: "set_labels (labels s) [0..<N s] (replicate (N s) (replicate (nat (k s)) 0)) = Inr M"
    by (simp_all add: generate_membership_def split: if_splits)
  have "length M = length (replicate (N s) (replicate (nat (k s)) (0::real)))
       \<and> (\<forall>j<length (replicate (N s) (replicate (nat (k s)) (0::real))). j \<notin> set [0..<N s] \<longrightarrow>
             M ! j = replicate (N s) (replicate (nat (k s)) 0) ! j)
       \<and> (\<forall>j\<in>set [0..<N s]. length (M ! j) = nat (k s) \<and> sum_list (M ! j) = 1)"
    by (rule set_labels_rows [OF sl]) simp_all
  then show ?thesis using k by (simp add: list_all_length np_sum_def)
qed

lemma set_labels_succeeds:
  assumes "\<forall>j\<in>set js. j < length lbls \<and> j < length M \<and> lbls ! j < K"
    and "\<forall>j<length M. length (M ! j) = K"
  shows "\<exists>M'. set_labels lbls js M = Inr M'"
  using assms
proof (induction js arbitrary: M)
  case Nil
  then show ?case by simp
next
  case (Cons j js)
  let ?M1 = "M[j := (M ! j)[lbls ! j := 1]]"
  have "\<forall>i\<in>set js. i < length lbls \<and> i < length ?M1 \<and> lbls ! i < K"
    using Cons.prems(1) by simp
  moreover have "\<forall>i<length ?M1. length (?M1 ! i) = K"
    using Cons.prems by (auto simp: nth_list_update)
  ultimately have "\<exists>M'. set_labels lbls js ?M1 = Inr M'" by (rule Cons.IH)
  with Cons.prems show ?case by simp
qed

subsection \<open>What the steps of the loop leave alone\<close>

lemma refresh_fields [simp]:
  "k (refresh s) = k s" "N (refresh s) = N s" "m (refresh s) = m s"
  "X_features (refresh s) = X_features s" "weights (refresh s) = weights s"
  "Y_features (refresh s) = Y_features s" "tolerance (refresh s) = tolerance s"
  "centroids (refresh s) = centroids s" "membership (refresh s) = membership s"
  "labels (refresh s) = labels s"
  "Tij (refresh s) = generate_Tij s" "Ti (refresh s) = generate_Ti s"
  by (simp_all add: refresh_def Let_def generate_Ti_def generate_Tij_def)

lemma update_centroids_fields [simp]:
  "k (update_centroids s) = k s" "N (update_centroids s) = N s" "m (update_centroids s) = m s"
  "X_features (update_centroids s) = X_features s" "weights (update_centroids s) = weights s"
  "Y_features (update_centroids s) = Y_features s"
  "tolerance (update_centroids s) = tolerance s"
  "membership (update_centroids s) = membership s" "labels (update_centroids s) = labels s"
  "Tij (update_centroids s) = Tij s" "Ti (update_centroids s) = Ti s"
  by (simp_all add: update_centroids_def)

lemma length_generate_Tij [simp]: "length (generate_Tij s) = nat (k s)"
  by (simp add: generate_Tij_def)

lemma length_generate_Tij_row: "c < nat (k s) \<Longrightarrow> length (generate_Tij s ! c) = m s"
  by (simp add: generate_Tij_def)

lemma length_generate_Ti [simp]: "length (generate_Ti s) = nat (k s)"
  by (simp add: generate_Ti_def)

lemma well_shaped_refresh: "well_shaped s \<Longrightarrow> well_shaped (refresh s)"
  by (simp add: well_shaped_def list_all_length length_generate_Tij_row)

lemma well_shaped_update_centroids: "well_shaped s \<Longrightarrow> well_shaped (update_centroids s)"
  by (simp add: well_shaped_def) (simp add: update_centroids_def list_all_length)

lemma well_shaped_move_mass: "well_shaped s \<Longrightarrow> well_shaped (move_mass s i f t p)"
  by (simp add: well_shaped_def list_all_length)

lemma unit_rows_refresh [simp]: "unit_rows (refresh s) = unit_rows s"
  by (simp add: unit_rows_def)

lemma unit_rows_update_centroids [simp]: "unit_rows (update_centroids s) = unit_rows s"
  by (simp add: unit_rows_def)

lemma unit_rows_move_mass:
  assumes "unit_rows s" "i < N s" "f < nat (k s)" "t < nat (k s)"
  shows "unit_rows (move_mass s i f t p)"
proof -
  have rows: "i < length (membership s)" "f < length (membership s ! i)"
    "t < length (membership s ! i)"
    using assms by (simp_all add: unit_rows_def list_all_length)
  show ?thesis
    using assms(1) move_mass_row_sum [OF rows]
    by (simp add: unit_rows_def list_all_length np_sum_def)
qed

lemma fit_init_unit_rows:
  assumes "fit_init kmeans_fit k0 init t0 Y X w = Inr s0"
  shows "unit_rows s0"
proof -
  from assms obtain centers lbls M where
    M: "generate_membership \<lparr>k = k0, tolerance = t0, Y_features = Y, X_features = X,
          weights = w, m = ncols X, N = length X, centroids = centers, labels = lbls,
          membership = [], Ti = [], Tij = []\<rparr> = Inr M"
    and s0: "s0 = refresh (\<lparr>k = k0, tolerance = t0, Y_features = Y, X_features = X,
          weights = w, m = ncols X, N = length X, centroids = centers, labels = lbls,
          membership = [], Ti = [], Tij = []\<rparr>\<lparr>membership := M\<rparr>)"
    by (auto simp: fit_init_def Let_def split: sum.splits prod.splits if_splits)
  from generate_membership_rows [OF M] s0 show ?thesis
    by (simp add: unit_rows_def)
qed

subsection \<open>The totals after a move\<close>

lemma generate_Tij_nth:
  "c < nat (k s) \<Longrightarrow> j < m s \<Longrightarrow>
   generate_Tij s ! c ! j = (\<Sum>i<N s. X_features s ! i ! j * membership s ! i ! c)"
  by (simp add: generate_Tij_def np_sum_def interv_sum_list_conv_sum_set_nat atLeast0LessThan)

lemma generate_Ti_nth:
  "c < nat (k s) \<Longrightarrow> generate_Ti s ! c = np_sum (vmul (weights s) (generate_Tij s ! c))"
  by (simp add: generate_Ti_def)

lemma move_mass_entry:
  assumes "i < length (membership s)" "f < length (membership s ! i)"
    "t < length (membership s ! i)" "f \<noteq> t"
  shows "membership (move_mass s i f t p) ! i' ! c =
         membership s ! i' ! c
           + (if i' = i \<and> c = t then p else 0) - (if i' = i \<and> c = f then p else 0)"
proof (cases "(i', c) = (i, f) \<or> (i', c) = (i, t)")
  case False
  then show ?thesis by (auto simp: move_mass_entry_other)
next
  case True
  with assms show ?thesis
    by (auto simp: move_mass_entry_from move_mass_entry_to)
qed

lemma generate_Tij_move_mass:
  assumes "i < N s" "length (membership s) = N s" "f < length (membership s ! i)"
    "t < length (membership s ! i)" "f \<noteq> t" "c < nat (k s)" "j < m s"
  shows "generate_Tij (move_mass s i f t p) ! c ! j =
         generate_Tij s ! c ! j
           + (if c = t then p * X_features s ! i ! j else 0)
           - (if c = f then p * X_features s ! i ! j else 0)"
proof -
  let ?X = "\<lambda>i'. X_features s ! i' ! j"
  have rows: "i < length (membership s)" using assms by simp
  have "generate_Tij (move_mass s i f t p) ! c ! j =
        (\<Sum>i'<N s. ?X i' * (membership s ! i' ! c
           + (if i' = i \<and> c = t then p else 0) - (if i' = i \<and> c = f then p else 0)))"
    using assms(6,7) by (simp add: generate_Tij_nth move_mass_entry [OF rows assms(3-5)])
  also have "\<dots> = (\<Sum>i'<N s. ?X i' * membership s ! i' ! c
           + (if i' = i then (if c = t then p * ?X i else 0) - (if c = f then p * ?X i else 0) else 0))"
    by (intro sum.cong) (auto simp: algebra_simps)
  also have "\<dots> = (\<Sum>i'<N s. ?X i' * membership s ! i' ! c)
           + ((if c = t then p * ?X i else 0) - (if c = f then p * ?X i else 0))"
    using assms(1) by (simp add: sum.distrib sum.delta)
  finally show ?thesis using assms(6,7) by (simp add: generate_Tij_nth)
qed

lemma weighted_row_move_mass:
  assumes "well_shaped s" "i < N s" "f < nat (k s)" "t < nat (k s)" "f \<noteq> t" "c < nat (k s)"
    and "length u = m s"
  shows "np_sum (vmul u (generate_Tij (move_mass s i f t p) ! c)) =
         np_sum (vmul u (generate_Tij s ! c))
           + (if c = t then p else 0) * np_sum (vmul u (X_features s ! i))
           - (if c = f then p else 0) * np_sum (vmul u (X_features s ! i))"
proof -
  have len: "length (generate_Tij (move_mass s i f t p) ! c) = m s"
    "length (generate_Tij s ! c) = m s" "length (X_features s ! i) = m s"
    using assms(1,2,6) by (simp_all add: length_generate_Tij_row well_shaped_rows)
  have rows: "length (membership s) = N s" "f < length (membership s ! i)"
    "t < length (membership s ! i)"
    using assms(1-4) by (simp_all add: well_shaped_rows) (simp add: well_shaped_def)
  have "np_sum (vmul u (generate_Tij (move_mass s i f t p) ! c)) =
        (\<Sum>j<m s. u ! j * (generate_Tij s ! c ! j
           + (if c = t then p * X_features s ! i ! j else 0)
           - (if c = f then p * X_features s ! i ! j else 0)))"
    using assms(7) len
    by (simp add: np_sum_vmul [where n = "m s"]
          generate_Tij_move_mass [OF assms(2) rows assms(5,6)])
  also have "\<dots> = (\<Sum>j<m s. u ! j * generate_Tij s ! c ! j)
           + (if c = t then p else 0) * (\<Sum>j<m s. u ! j * X_features s ! i ! j)
           - (if c = f then p else 0) * (\<Sum>j<m s. u ! j * X_features s ! i ! j)"
    by (simp add: algebra_simps sum.distrib sum_subtractf sum_distrib_left)
  finally show ?thesis
    using assms(7) len by (simp add: np_sum_vmul [where n = "m s"])
qed

lemma np_sum_vmul_vsub:
  assumes "length u = n" "length a = n" "length b = n"
  shows "np_sum (vmul u (vsub a b)) = np_sum (vmul u a) - np_sum (vmul u b)"
  using assms
  by (simp add: np_sum_vmul [where n = n] nth_vsub algebra_simps sum_subtractf)

lemma np_sum_vmul_self:
  assumes "length w = n" "length x = n"
  shows "np_sum (vmul (vmul w x) x) = np_sum (vmul w (vsquare x))"
  using assms
  by (simp add: np_sum_vmul [where n = n] nth_vmul nth_vsquare power2_eq_square algebra_simps)

subsection \<open>The selected records are in range\<close>

lemma argmin_from_bound: "best < pos \<Longrightarrow> argmin_from pos best bv xs < pos + length xs"
proof (induction xs arbitrary: pos best bv)
  case Nil
  then show ?case by simp
next
  case (Cons x xs)
  have "argmin_from (Suc pos) pos x xs < Suc pos + length xs"
    by (rule Cons.IH) simp
  moreover have "argmin_from (Suc pos) best bv xs < Suc pos + length xs"
    by (rule Cons.IH) (use Cons.prems in simp)
  ultimately show ?case by simp
qed

lemma np_argmin_bound: "xs \<noteq> [] \<Longrightarrow> np_argmin xs < length xs"
  using argmin_from_bound [of 0 1] by (cases xs) (auto simp: np_argmin_def)

lemma record_for_range:
  assumes "0 < nat (k s)"
  shows "\<exists>c t. record_for s i f = (c, i, f, t) \<and> t < nat (k s)"
proof -
  let ?xs = "map (\<lambda>j_new. transfer_score s i f j_new) [0..<nat (k s)]"
  have "?xs \<noteq> []" using assms by simp
  then have "np_argmin ?xs < length ?xs" by (rule np_argmin_bound)
  then show ?thesis by (simp add: record_for_def Let_def)
qed

lemma all_costs_range:
  assumes "r \<in> set (all_costs s)"
  shows "\<exists>c i f t. r = (c, i, f, t) \<and> i < N s \<and> f < length (membership s ! i)
           \<and> (0 < nat (k s) \<longrightarrow> t < nat (k s))"
proof -
  from assms obtain i f where i: "i < N s" and f: "f \<in> set (np_nonzero (membership s ! i))"
    and r: "r = record_for s i f"
    by (auto simp: all_costs_def)
  from f have "f < length (membership s ! i)" by (simp add: np_nonzero_def)
  with i r record_for_range [of s i f] show ?thesis
    by (cases "0 < nat (k s)") (auto simp: record_for_def Let_def)
qed

lemma get_transfer_records_range:
  assumes "get_transfer_records s top_m = Inr recs" "(i, f, t) \<in> set recs"
  shows "i < N s \<and> f < length (membership s ! i) \<and> (0 < nat (k s) \<longrightarrow> t < nat (k s))"
proof -
  from assms(1) have "recs = map snd (take top_m (sort_key (\<lambda>r. sort_rank (fst r)) (all_costs s)))"
    by (simp add: get_transfer_records_def Let_def split: if_splits)
  with assms(2) obtain c where "(c, i, f, t) \<in> set (take top_m (sort_key (\<lambda>r. sort_rank (fst r)) (all_costs s)))"
    by auto
  then have "(c, i, f, t) \<in> set (all_costs s)"
    by (auto dest: in_set_takeD)
  from all_costs_range [OF this] show ?thesis by simp
qed

lemma get_transfer_records_unit_rows:
  assumes "get_transfer_records s top_m = Inr recs" "(i, f, t) \<in> set recs" "unit_rows s"
  shows "i < N s \<and> f < nat (k s) \<and> t < nat (k s)"
proof -
  from get_transfer_records_range [OF assms(1,2)]
  have r: "i < N s" "f < length (membership s ! i)" "0 < nat (k s) \<longrightarrow> t < nat (k s)"
    by simp_all
  from assms(3) r(1) have "length (membership s ! i) = nat (k s)"
    by (simp add: unit_rows_def list_all_length)
  with r show ?thesis by auto
qed

subsection \<open>Invariants of the loop\<close>

lemma apply_record_keeps:
  assumes "apply_record s r = Inr s'" "in_range s r" "well_shaped s" "unit_rows s"
  shows "well_shaped s' \<and> unit_rows s' \<and> N s' = N s \<and> k s' = k s"
proof -
  obtain i f t where r: "r = (i, f, t)" by (cases r)
  show ?thesis
  proof (cases "is_transfer_possible s f t")
    case False
    with assms r show ?thesis by (simp add: apply_record_def)
  next
    case True
    with assms(1) r obtain s1 where s1: "transfer s i f t = Inr s1" and s': "s' = refresh s1"
      by (auto simp: apply_record_def split: sum.splits)
    from s1 obtain p where "s1 = move_mass s i f t p" by (auto simp: transfer_Inr)
    with assms(2-4) r s' show ?thesis
      by (simp add: in_range_def well_shaped_refresh well_shaped_move_mass unit_rows_move_mass)
  qed
qed

lemma apply_records_keeps:
  assumes "apply_records s rs = Inr s'" "\<forall>r\<in>set rs. in_range s r" "well_shaped s" "unit_rows s"
  shows "well_shaped s' \<and> unit_rows s'"
  using assms
proof (induction rs arbitrary: s)
  case Nil
  then show ?case by simp
next
  case (Cons r rs)
  from Cons.prems(1) obtain s1 where s1: "apply_record s r = Inr s1"
    and rest: "apply_records s1 rs = Inr s'"
    by (auto split: sum.splits)
  from apply_record_keeps [OF s1] Cons.prems
  have k: "well_shaped s1" "unit_rows s1" "N s1 = N s" "k s1 = k s" by simp_all
  have "\<forall>r\<in>set rs. in_range s1 r"
    using Cons.prems(2) k(3,4) by (simp add: in_range_def)
  from Cons.IH [OF rest this k(1,2)] show ?case .
qed

lemma fit_loop_invariant:
  assumes "fit_loop s it = (Inr sf, n)" "P s"
    and step: "\<And>s recs s'. P s \<Longrightarrow> get_transfer_records s 1 = Inr recs \<Longrightarrow>
                 apply_records s recs = Inr s' \<Longrightarrow> P (update_centroids s')"
  shows "P sf"
  using assms(1,2)
proof (induction s it rule: fit_loop.induct)
  case (1 s it)
  show ?case
  proof (cases "\<not> stop_codition s (tolerance s) \<and> it < 100")
    case False
    with "1.prems" show ?thesis by (simp add: fit_loop.simps [of s it])
  next
    case True
    with "1.prems"(1) obtain recs where recs: "get_transfer_records s 1 = Inr recs"
      by (cases "get_transfer_records s 1") (simp_all add: fit_loop.simps [of s it])
    show ?thesis
    proof (cases "no_transfer_possible recs")
      case True
      with \<open>\<not> stop_codition s (tolerance s) \<and> it < 100\<close> recs "1.prems" show ?thesis
        by (simp add: fit_loop.simps [of s it])
    next
      case False
      with \<open>\<not> stop_codition s (tolerance s) \<and> it < 100\<close> recs "1.prems"(1)
      obtain s' where s': "apply_records s recs = Inr s'"
        and loop: "fit_loop (update_centroids s') (it + 1) = (Inr sf, n)"
        by (cases "apply_records s recs") (simp_all add: fit_loop.simps [of s it])
      from step [OF "1.prems"(2) recs s'] have "P (update_centroids s')" .
      from "1.IH" [OF \<open>\<not> stop_codition s (tolerance s) \<and> it < 100\<close> recs False s' loop this]
      show ?thesis .
    qed
  qed
qed

lemma fit_loop_keeps:
  assumes "fit_loop s it = (Inr sf, n)" "well_shaped s" "unit_rows s"
  shows "well_shaped sf \<and> unit_rows sf"
proof (rule fit_loop_invariant [OF assms(1), where P = "\<lambda>s. well_shaped s \<and> unit_rows s"])
  show "well_shaped s \<and> unit_rows s" using assms by simp
next
  fix s recs s'
  assume inv: "well_shaped s \<and> unit_rows s" and recs: "get_transfer_records s 1 = Inr recs"
    and s': "apply_records s recs = Inr s'"
  have "\<forall>r\<in>set recs. in_range s r"
    using get_transfer_records_unit_rows [OF recs] inv by (auto simp: in_range_def)
  from apply_records_keeps [OF s' this] inv show "well_shaped (update_centroids s') \<and> unit_rows (update_centroids s')"
    by (simp add: well_shaped_update_centroids)
qed

lemma fit_loop_unfold:
  "fit_loop s it =
     (if stop_codition s (tolerance s) \<or> 100 \<le> it then (Inr s, it)
      else case get_transfer_records s 1 of
             Inl e \<Rightarrow> (Inl e, it)
           | Inr recs \<Rightarrow>
               if no_transfer_possible recs then (Inr s, it)
               else case apply_records s recs of
                      Inl e \<Rightarrow> (Inl e, it)
                    | Inr s' \<Rightarrow> fit_loop (update_centroids s') (it + 1))"
  by (subst fit_loop.simps) auto

lemma fit_loop_counter: "snd (fit_loop s it) \<le> max it 100"
proof (induction s it rule: fit_loop.induct)
  case (1 s it)
  show ?case
  proof (cases "\<not> stop_codition s (tolerance s) \<and> it < 100")
    case False
    then show ?thesis by (subst fit_loop_unfold) auto
  next
    case True
    show ?thesis
    proof (cases "get_transfer_records s 1")
      case (Inl e)
      with True show ?thesis by (subst fit_loop_unfold) auto
    next
      case (Inr recs)
      show ?thesis
      proof (cases "no_transfer_possible recs")
        case True
        with \<open>\<not> stop_codition s (tolerance s) \<and> it < 100\<close> Inr show ?thesis
          by (subst fit_loop_unfold) auto
      next
        case False
        show ?thesis
        proof (cases "apply_records s recs")
          case (Inl e)
          with True Inr False show ?thesis by (subst fit_loop_unfold) auto
        next
          case (Inr s')
          from "1.IH" [OF True \<open>get_transfer_records s 1 = Inr recs\<close> False Inr]
          have "snd (fit_loop (update_centroids s') (it + 1)) \<le> max (it + 1) 100" .
          with True \<open>get_transfer_records s 1 = Inr recs\<close> False Inr show ?thesis
            by (subst fit_loop_unfold) auto
        qed
      qed
    qed
  qed
qed

subsection \<open>The loop ends with a state\<close>

lemma generate_Tij_cong:
  assumes "X_features s' = X_features s" "membership s' = membership s" "N s' = N s"
    "m s' = m s" "k s' = k s"
  shows "generate_Tij s' = generate_Tij s"
  using assms by (simp add: generate_Tij_def)

lemma generate_Ti_cong:
  assumes "X_features s' = X_features s" "membership s' = membership s" "N s' = N s"
    "m s' = m s" "k s' = k s" "weights s' = weights s"
  shows "generate_Ti s' = generate_Ti s"
  unfolding generate_Ti_def generate_Tij_cong [OF assms(1-5)] using assms(6) by simp

lemma in_step_refresh: "in_step (refresh s)"
proof -
  have "generate_Tij (refresh s) = generate_Tij s" by (rule generate_Tij_cong) simp_all
  moreover have "generate_Ti (refresh s) = generate_Ti s" by (rule generate_Ti_cong) simp_all
  ultimately show ?thesis by (simp add: in_step_def)
qed

lemma in_step_update_centroids: "in_step (update_centroids s) = in_step s"
proof -
  have "generate_Tij (update_centroids s) = generate_Tij s"
    by (rule generate_Tij_cong) simp_all
  moreover have "generate_Ti (update_centroids s) = generate_Ti s"
    by (rule generate_Ti_cong) simp_all
  ultimately show ?thesis by (simp add: in_step_def)
qed

lemma weighted_zero:
  fixes w x d :: "real list"
  assumes "length w = n" "length x = n" "length d = n" "list_all (\<lambda>a. 0 \<le> a) w"
    and "np_sum (vmul w (vsquare x)) = 0"
  shows "np_sum (vmul (vmul w x) d) = 0"
proof -
  have nn: "0 \<le> w ! j * (x ! j)\<^sup>2" if "j < n" for j
    using assms(1,4) that by (simp add: list_all_length)
  have "(\<Sum>j<n. w ! j * (x ! j)\<^sup>2) = 0"
    using assms by (simp add: np_sum_vmul [where n = n] nth_vsquare)
  then have "\<forall>j\<in>{..<n}. w ! j * (x ! j)\<^sup>2 = 0"
    using nn by (subst (asm) sum_nonneg_eq_0_iff) auto
  then have "w ! j * x ! j * d ! j = 0" if "j < n" for j
    using that by auto
  then have "(\<Sum>j<n. w ! j * x ! j * d ! j) = 0"
    by (intro sum.neutral) simp
  moreover have "np_sum (vmul (vmul w x) d) = (\<Sum>j<n. w ! j * x ! j * d ! j)"
    using assms(1-3) by (simp add: np_sum_vmul [where n = n] nth_vmul)
  ultimately show ?thesis by simp
qed

lemma minimum_percent_not_NInf:
  assumes "well_shaped s" "nonneg_weights s" "i < N s" "f < nat (k s)" "t < nat (k s)"
  shows "minimum_percent s i f t \<noteq> NInf"
proof
  assume a: "minimum_percent s i f t = NInf"
  let ?w = "weights s" and ?x = "X_features s ! i"
  let ?d = "vsub (Tij s ! f) (Tij s ! t)"
  have len: "length ?w = m s" "length ?x = m s" "length ?d = m s"
    using assms by (simp_all add: well_shaped_weights well_shaped_rows well_shaped_Tij_row)
  from a have z: "np_sum (vmul ?w (vsquare ?x)) = 0"
    and neg: "np_sum (vmul (vmul ?w ?x) ?d) < 0"
    by (auto simp: minimum_percent_def fdiv_def split: if_splits)
  from weighted_zero [OF len _ z] assms(2) neg show False
    by (simp add: nonneg_weights_def)
qed

lemma transfer_percent_Fin:
  assumes "minimum_percent s i f t \<noteq> NInf"
  shows "\<exists>p. transfer_percent s i f t = Fin p"
proof (cases "same_side s f t")
  case True
  with py_min_Fin_not_NInf [OF assms] show ?thesis
    by (simp add: transfer_percent_def)
next
  case False
  obtain q where q: "py_min (Fin (membership s ! i ! f))
                       (py_max (Fin 0) (zero_percent s i f)) = Fin q"
    using py_min_Fin_not_NInf [OF py_max_zero_not_NInf] by blast
  have "\<exists>p. py_min (Fin q) (py_max (Fin 0) (fneg (zero_percent s i t))) = Fin p"
    by (rule py_min_Fin_not_NInf [OF py_max_zero_not_NInf])
  with False q show ?thesis by (simp add: transfer_percent_def)
qed

lemma no_transfer_possible_never: "\<not> no_transfer_possible recs"
  by (simp add: no_transfer_possible_def)

lemma generate_Ti_no_units:
  assumes "well_shaped s" "N s = 0" "c < nat (k s)"
  shows "generate_Ti s ! c = 0"
proof -
  have "length (generate_Tij s ! c) = m s" "length (weights s) = m s"
    using assms by (simp_all add: length_generate_Tij_row well_shaped_weights)
  then have "np_sum (vmul (weights s) (generate_Tij s ! c))
             = (\<Sum>j<m s. weights s ! j * generate_Tij s ! c ! j)"
    by (simp add: np_sum_vmul [where n = "m s"])
  also have "\<dots> = 0"
    using assms(2,3) by (intro sum.neutral) (simp add: generate_Tij_nth)
  finally show ?thesis using assms(3) by (simp add: generate_Ti_nth)
qed

lemma stop_without_units:
  assumes "well_shaped s" "in_step s" "N s = 0"
  shows "stop_codition s (tolerance s)"
proof -
  have "\<bar>Ti s ! c\<bar> < 10 powi (- tolerance s)" if "c < length (Ti s)" for c
  proof -
    from that assms(2) have "c < nat (k s)" by (simp add: in_step_def)
    with assms have "Ti s ! c = 0" by (simp add: in_step_def generate_Ti_no_units)
    with tol_pos [of s] show ?thesis by (simp add: tol_def)
  qed
  then show ?thesis by (simp add: stop_codition_def list_all_length)
qed

lemma sum_list_all_zero:
  fixes r :: "real list"
  assumes "\<forall>c<length r. r ! c = 0"
  shows "sum_list r = 0"
  using assms by (simp add: sum_list_sum_nth)

lemma all_costs_nonempty:
  assumes "unit_rows s" "0 < N s"
  shows "all_costs s \<noteq> []"
proof -
  let ?r = "membership s ! 0"
  have "np_sum ?r = 1" using assms by (simp add: unit_rows_def list_all_length)
  then have "\<not> (\<forall>c<length ?r. ?r ! c = 0)"
    using sum_list_all_zero [of ?r] by (auto simp: np_sum_def)
  then have "np_nonzero ?r \<noteq> []"
    by (auto simp: np_nonzero_def filter_empty_conv)
  then have "map (record_for s 0) (np_nonzero ?r) \<noteq> []" by simp
  moreover have "map (record_for s 0) (np_nonzero ?r)
      \<in> set (map (\<lambda>i. map (\<lambda>j_old. record_for s i j_old) (np_nonzero (membership s ! i)))
                  [0..<N s])"
    using assms(2) by auto
  ultimately show ?thesis
    unfolding all_costs_def concat_eq_Nil_conv by blast
qed

lemma get_transfer_records_returns:
  assumes "loop_inv s" "\<not> stop_codition s (tolerance s)"
  shows "\<exists>recs. get_transfer_records s top_m = Inr recs"
proof -
  have "0 < N s" using stop_without_units [of s] assms by (auto simp: loop_inv_def)
  with assms(1) have "all_costs s \<noteq> []" by (simp add: all_costs_nonempty loop_inv_def)
  then show ?thesis by (simp add: get_transfer_records_def Let_def)
qed

lemma apply_record_returns:
  assumes "loop_inv s" "in_range s r"
  shows "\<exists>s'. apply_record s r = Inr s' \<and> loop_inv s' \<and> N s' = N s \<and> k s' = k s"
proof -
  obtain i f t where r: "r = (i, f, t)" by (cases r)
  from assms have inv: "well_shaped s" "nonneg_weights s" "unit_rows s" "in_step s"
    and rng: "i < N s" "f < nat (k s)" "t < nat (k s)"
    by (simp_all add: loop_inv_def in_range_def r)
  show ?thesis
  proof (cases "is_transfer_possible s f t")
    case False
    with assms r show ?thesis by (simp add: apply_record_def)
  next
    case True
    from transfer_percent_Fin [OF minimum_percent_not_NInf [OF inv(1,2) rng]]
    obtain p where "transfer_percent s i f t = Fin p" ..
    then have tr: "transfer s i f t = Inr (move_mass s i f t p)"
      by (simp add: transfer_Inr)
    with True r have ar: "apply_record s r = Inr (refresh (move_mass s i f t p))"
      by (simp add: apply_record_def)
    from apply_record_keeps [OF ar assms(2) inv(1,3)] inv(2) ar show ?thesis
      by (simp add: loop_inv_def in_step_refresh nonneg_weights_def)
  qed
qed

lemma apply_records_returns:
  assumes "loop_inv s" "\<forall>r\<in>set rs. in_range s r"
  shows "\<exists>s'. apply_records s rs = Inr s' \<and> loop_inv s'"
  using assms
proof (induction rs arbitrary: s)
  case Nil
  then show ?case by simp
next
  case (Cons r rs)
  have "in_range s r" using Cons.prems(2) by simp
  from apply_record_returns [OF Cons.prems(1) this]
  obtain s1 where s1: "apply_record s r = Inr s1" "loop_inv s1" "N s1 = N s" "k s1 = k s"
    by blast
  have "\<forall>r\<in>set rs. in_range s1 r"
    using Cons.prems(2) s1(3,4) by (simp add: in_range_def)
  from Cons.IH [OF s1(2) this] s1(1) show ?case by simp
qed

lemma loop_inv_update_centroids: "loop_inv s \<Longrightarrow> loop_inv (update_centroids s)"
  by (simp add: loop_inv_def well_shaped_update_centroids in_step_update_centroids
        nonneg_weights_def)

lemma fit_loop_returns:
  assumes "loop_inv s"
  shows "\<exists>sf n. fit_loop s it = (Inr sf, n) \<and> loop_inv sf"
  using assms
proof (induction s it rule: fit_loop.induct)
  case (1 s it)
  show ?case
  proof (cases "\<not> stop_codition s (tolerance s) \<and> it < 100")
    case False
    with "1.prems" show ?thesis by (subst fit_loop_unfold) auto
  next
    case True
    from get_transfer_records_returns [OF "1.prems", of 1] True
    obtain recs where recs: "get_transfer_records s 1 = Inr recs" by auto
    have "\<forall>r\<in>set recs. in_range s r"
      using get_transfer_records_unit_rows [OF recs] "1.prems"
      by (auto simp: in_range_def loop_inv_def)
    from apply_records_returns [OF "1.prems" this]
    obtain s' where s': "apply_records s recs = Inr s'" "loop_inv s'" by auto
    from "1.IH" [OF True recs no_transfer_possible_never s'(1)
        loop_inv_update_centroids [OF s'(2)]]
    obtain sf n where "fit_loop (update_centroids s') (it + 1) = (Inr sf, n)" "loop_inv sf"
      by auto
    with True recs s'(1) show ?thesis
      by (subst fit_loop_unfold) (auto simp: no_transfer_possible_never)
  qed
qed

lemma fit_init_in_step:
  assumes "fit_init kmeans_fit k0 init t0 Y X w = Inr s0"
  shows "in_step s0"
proof -
  from assms obtain s1 where "s0 = refresh s1"
    by (auto simp: fit_init_def Let_def split: sum.splits prod.splits if_splits)
  then show ?thesis by (simp add: in_step_refresh)
qed

lemma fit_returns:
  assumes "fit_init kmeans_fit k0 init t0 Y X w = Inr s0" "well_shaped s0" "nonneg_weights s0"
  shows "\<exists>sf n. fit kmeans_fit k0 init t0 Y X w = (Inr sf, n) \<and> loop_inv sf"
proof -
  have "loop_inv s0"
    using assms fit_init_unit_rows [OF assms(1)] fit_init_in_step [OF assms(1)]
    by (simp add: loop_inv_def)
  from fit_loop_returns [OF this, of 0] assms(1) show ?thesis by (simp add: fit_def)
qed

subsection \<open>The example runs\<close>

lemma ex4_init:
  "fit_init ex4_kmeans 2 None 9 [[0], [1], [10], [11]] [[1], [1], [- 1], [- 1]] [1] = Inr ex4"
  by code_simp

lemma ex4_fit:
  "fit ex4_kmeans 2 None 9 [[0], [1], [10], [11]] [[1], [1], [- 1], [- 1]] [1]
     = (Inr ex4_final, 2)"
  by code_simp

lemma ex4_transfer: "transfer ex4 1 0 1 = Inr (move_mass ex4 1 0 1 1)"
  by code_simp

subsection \<open>Conservation of mass\<close>

text \<open>
  C1. A transfer between two different clusters takes its amount from \<open>M[i, from]\<close>, adds
  it to \<open>M[i, to]\<close> and changes no other entry; \<open>fit\<close> only calls \<open>_transfer\<close> for two
  clusters whose totals differ, which are different clusters. Every row sum and the total
  mass are the same after a transfer. The hard membership has rows that sum to one, and so
  has the membership \<open>fit\<close> ends with; for well-shaped arrays and weights that are not
  negative \<open>fit\<close> does end with a state.
\<close>

theorem transfer_conserves_mass:
  "(well_shaped s \<and> i < N s \<and> from_index < nat (k s) \<and> to_index < nat (k s)
      \<and> transfer s i from_index to_index = Inr s'
    \<longrightarrow> (from_index \<noteq> to_index \<longrightarrow>
           (\<exists>p. transfer_percent s i from_index to_index = Fin p
               \<and> membership s' ! i ! from_index = membership s ! i ! from_index - p
               \<and> membership s' ! i ! to_index = membership s ! i ! to_index + p))
        \<and> (\<forall>i' c. (i', c) \<noteq> (i, from_index) \<and> (i', c) \<noteq> (i, to_index)
              \<longrightarrow> membership s' ! i' ! c = membership s ! i' ! c)
        \<and> (\<forall>i'. np_sum (membership s' ! i') = np_sum (membership s ! i'))
        \<and> total_mass s' = total_mass s)
   \<and> (is_transfer_possible s from_index to_index \<longrightarrow> from_index \<noteq> to_index)
   \<and> (fit_init kmeans_fit k0 init t0 Y X w = Inr s0
        \<longrightarrow> (\<forall>i<N s0. np_sum (membership s0 ! i) = 1))
   \<and> (fit_init kmeans_fit k0 init t0 Y X w = Inr s0 \<and> well_shaped s0
        \<and> fit kmeans_fit k0 init t0 Y X w = (Inr sf, n)
        \<longrightarrow> well_shaped sf \<and> (\<forall>i<N sf. np_sum (membership sf ! i) = 1))
   \<and> (fit_init kmeans_fit k0 init t0 Y X w = Inr s0 \<and> well_shaped s0 \<and> nonneg_weights s0
        \<longrightarrow> (\<exists>sf n. fit kmeans_fit k0 init t0 Y X w = (Inr sf, n)))"
proof (intro conjI impI)
  assume a: "well_shaped s \<and> i < N s \<and> from_index < nat (k s) \<and> to_index < nat (k s)
      \<and> transfer s i from_index to_index = Inr s'"
  then obtain p where p: "transfer_percent s i from_index to_index = Fin p"
    and s': "s' = move_mass s i from_index to_index p"
    by (auto simp: transfer_Inr)
  have rows: "i < length (membership s)" "from_index < length (membership s ! i)"
    "to_index < length (membership s ! i)"
    using a by (simp_all add: well_shaped_rows)
  show "\<forall>i' c. (i', c) \<noteq> (i, from_index) \<and> (i', c) \<noteq> (i, to_index)
          \<longrightarrow> membership s' ! i' ! c = membership s ! i' ! c"
    unfolding s' by (intro allI impI move_mass_entry_other) simp_all
  show "\<forall>i'. np_sum (membership s' ! i') = np_sum (membership s ! i')"
    unfolding s' np_sum_def using move_mass_row_sum [OF rows] by simp
  show "total_mass s' = total_mass s"
    unfolding s' using rows by (rule move_mass_total)
  assume "from_index \<noteq> to_index"
  with rows p show "\<exists>p. transfer_percent s i from_index to_index = Fin p
               \<and> membership s' ! i ! from_index = membership s ! i ! from_index - p
               \<and> membership s' ! i ! to_index = membership s ! i ! to_index + p"
    unfolding s' by (simp add: move_mass_entry_from move_mass_entry_to)
next
  assume "is_transfer_possible s from_index to_index"
  then show "from_index \<noteq> to_index" by (rule is_transfer_possible_distinct)
next
  assume "fit_init kmeans_fit k0 init t0 Y X w = Inr s0"
  from fit_init_unit_rows [OF this] show "\<forall>i<N s0. np_sum (membership s0 ! i) = 1"
    by (simp add: unit_rows_def list_all_length)
next
  assume a: "fit_init kmeans_fit k0 init t0 Y X w = Inr s0 \<and> well_shaped s0
        \<and> fit kmeans_fit k0 init t0 Y X w = (Inr sf, n)"
  then have loop: "fit_loop s0 0 = (Inr sf, n)" by (auto simp: fit_def)
  from a have u: "unit_rows s0" by (blast intro: fit_init_unit_rows)
  from fit_loop_keeps [OF loop _ u] a have k: "well_shaped sf" "unit_rows sf" by simp_all
  show "well_shaped sf" by fact
  show "\<forall>i<N sf. np_sum (membership sf ! i) = 1"
    using k(2) by (simp add: unit_rows_def list_all_length)
next
  assume "fit_init kmeans_fit k0 init t0 Y X w = Inr s0 \<and> well_shaped s0 \<and> nonneg_weights s0"
  then show "\<exists>sf n. fit kmeans_fit k0 init t0 Y X w = (Inr sf, n)"
    using fit_returns [of kmeans_fit k0 init t0 Y X w s0] by blast
qed

theorem transfer_conserves_mass_witness:
  "well_shaped ex4 \<and> 1 < N ex4 \<and> 0 < nat (k ex4) \<and> 1 < nat (k ex4)
   \<and> transfer ex4 1 0 1 = Inr (move_mass ex4 1 0 1 1)
   \<and> is_transfer_possible ex4 0 1
   \<and> fit_init ex4_kmeans 2 None 9 [[0], [1], [10], [11]] [[1], [1], [- 1], [- 1]] [1] = Inr ex4
   \<and> nonneg_weights ex4
   \<and> fit ex4_kmeans 2 None 9 [[0], [1], [10], [11]] [[1], [1], [- 1], [- 1]] [1]
       = (Inr ex4_final, 2)
   \<and> membership (move_mass ex4 1 0 1 1) ! 1 ! 0 = membership ex4 ! 1 ! 0 - 1
   \<and> membership (move_mass ex4 1 0 1 1) ! 1 ! 1 = membership ex4 ! 1 ! 1 + 1
   \<and> np_sum (membership (move_mass ex4 1 0 1 1) ! 1) = np_sum (membership ex4 ! 1)
   \<and> total_mass (move_mass ex4 1 0 1 1) = total_mass ex4
   \<and> np_sum (membership ex4 ! 3) = 1
   \<and> well_shaped ex4_final \<and> np_sum (membership ex4_final ! 0) = 1"
proof -
  have h: "well_shaped ex4" "1 < N ex4" "0 < nat (k ex4)" "1 < nat (k ex4)"
    "is_transfer_possible ex4 0 1" "3 < N ex4" "0 < N ex4_final" "(0::nat) \<noteq> 1"
    "nonneg_weights ex4"
    by code_simp+
  have p: "transfer_percent ex4 1 0 1 = Fin 1" by code_simp
  note t = transfer_conserves_mass [of ex4 1 0 1 "move_mass ex4 1 0 1 1" ex4_kmeans 2 None 9
      "[[0], [1], [10], [11]]" "[[1], [1], [- 1], [- 1]]" "[1]" ex4 ex4_final 2]
  from t h p ex4_transfer ex4_init ex4_fit show ?thesis by auto
qed

subsection \<open>The centroid update\<close>

lemma update_centroids_nth:
  assumes "c < nat (k s)" "d < ncols (Y_features s)"
  shows "centroids (update_centroids s) ! c ! d
         = (\<Sum>i<N s. Y_features s ! i ! d * membership s ! i ! c) / real (N s)"
  using assms
  by (simp add: update_centroids_def np_sum_def interv_sum_list_conv_sum_set_nat
        atLeast0LessThan)

text \<open>
  What \<open>_update_centroids\<close> computes: the membership-weighted sum divided by the number of
  units, which is the weighted mean scaled by the cluster's share of the units.
\<close>

lemma update_centroids_scaled:
  assumes "c < nat (k s)" "d < ncols (Y_features s)" "cluster_mass s c \<noteq> 0"
  shows "centroids (update_centroids s) ! c ! d
         = weighted_mean s c ! d * (cluster_mass s c / real (N s))"
proof -
  have "weighted_mean s c ! d
        = (\<Sum>i<N s. membership s ! i ! c * Y_features s ! i ! d) / cluster_mass s c"
    using assms(2)
    by (simp add: weighted_mean_def np_sum_def interv_sum_list_conv_sum_set_nat
          atLeast0LessThan)
  then show ?thesis
    using assms by (simp add: update_centroids_nth mult.commute)
qed

text \<open>
  C2. After an iteration the centre of a cluster of positive mass is to be the
  membership-weighted mean of \<open>Y\<close>, as the centres the seed clustering returns are.
  \<open>_update_centroids\<close> divides by the number of units instead of the mass of the cluster.
  On the four-unit example the first iteration moves unit 1 to cluster 1, which then holds
  the units at 1, 10 and 11 with mass 3: the weighted mean is \<open>22/3\<close> and the centre stored
  is \<open>22/4\<close>. Already on the hard membership, whose centres the clustering returned as
  \<open>[[1/2], [21/2]]\<close>, the update gives \<open>[[1/4], [21/4]]\<close>.
\<close>

theorem update_centroids_divides_by_N:
  "fit_init ex4_kmeans 2 None 9 [[0], [1], [10], [11]] [[1], [1], [- 1], [- 1]] [1] = Inr ex4
   \<and> get_transfer_records ex4 1 = Inr [(1, 0, 1)]
   \<and> apply_records ex4 [(1, 0, 1)] = Inr ex4_moved
   \<and> update_centroids ex4_moved = ex4_iter1
   \<and> cluster_mass ex4_iter1 1 = 3
   \<and> weighted_mean ex4_iter1 1 = [22 / 3]
   \<and> centroids ex4_iter1 ! 1 = [11 / 2]
   \<and> centroids ex4 = [[1 / 2], [21 / 2]]
   \<and> weighted_mean ex4 0 = [1 / 2] \<and> weighted_mean ex4 1 = [21 / 2]
   \<and> centroids (update_centroids ex4) = [[1 / 4], [21 / 4]]"
  by code_simp

subsection \<open>The amount a transfer moves\<close>

text \<open>
  C3. With both totals on the same side of zero within the tolerance, the amount
  \<open>_transfer\<close> moves is \<open>min(M[i, from], minimum_percent)\<close>; otherwise it is the least of
  \<open>M[i, from]\<close>, \<open>max(0, zero_percent(i, from))\<close> and \<open>max(0, -zero_percent(i, to))\<close>, with
  \<open>min\<close> and \<open>max\<close> those of Python. Where the quotients are numbers these are the least
  and greatest of the numbers; a \<open>minimum_percent\<close> that is \<open>nan\<close> or \<open>inf\<close>, as for a unit
  whose auxiliary row is zero, moves all of \<open>M[i, from]\<close>. For weights that are not negative
  the amount is always a number, and between two different clusters it is what leaves
  \<open>M[i, from]\<close> and what \<open>M[i, to]\<close> gains.
\<close>

theorem transfer_amount_by_side:
  assumes "well_shaped s" "i < N s" "from_index < nat (k s)" "to_index < nat (k s)"
  shows "(same_side s from_index to_index \<longrightarrow>
            transfer_percent s i from_index to_index
              = py_min (Fin (membership s ! i ! from_index))
                       (minimum_percent s i from_index to_index))
       \<and> (\<not> same_side s from_index to_index \<longrightarrow>
            transfer_percent s i from_index to_index
              = py_min (py_min (Fin (membership s ! i ! from_index))
                               (py_max (Fin 0) (zero_percent s i from_index)))
                       (py_max (Fin 0) (fneg (zero_percent s i to_index))))
       \<and> (same_side s from_index to_index
            \<and> minimum_percent s i from_index to_index = Fin mp \<longrightarrow>
            transfer_percent s i from_index to_index
              = Fin (min (membership s ! i ! from_index) mp))
       \<and> (same_side s from_index to_index
            \<and> (minimum_percent s i from_index to_index = NaN
                 \<or> minimum_percent s i from_index to_index = PInf) \<longrightarrow>
            transfer_percent s i from_index to_index = Fin (membership s ! i ! from_index))
       \<and> (\<not> same_side s from_index to_index
            \<and> zero_percent s i from_index = Fin zf \<and> zero_percent s i to_index = Fin zt \<longrightarrow>
            transfer_percent s i from_index to_index
              = Fin (min (min (membership s ! i ! from_index) (max 0 zf)) (max 0 (- zt))))
       \<and> (np_sum (vmul (weights s) (vsquare (X_features s ! i))) \<noteq> 0 \<longrightarrow>
            (\<exists>a b c. minimum_percent s i from_index to_index = Fin a
                     \<and> zero_percent s i from_index = Fin b
                     \<and> zero_percent s i to_index = Fin c))
       \<and> (nonneg_weights s \<longrightarrow> (\<exists>q. transfer_percent s i from_index to_index = Fin q))
       \<and> (transfer_percent s i from_index to_index = Fin p \<longrightarrow>
            (\<exists>s'. transfer s i from_index to_index = Inr s'
                 \<and> (from_index \<noteq> to_index \<longrightarrow>
                       membership s ! i ! from_index - membership s' ! i ! from_index = p
                     \<and> membership s' ! i ! to_index - membership s ! i ! to_index = p)))"
proof (intro conjI impI)
  show "transfer_percent s i from_index to_index
          = py_min (Fin (membership s ! i ! from_index))
                   (minimum_percent s i from_index to_index)"
    if "same_side s from_index to_index"
    using that by (simp add: transfer_percent_def)
  show "transfer_percent s i from_index to_index
          = py_min (py_min (Fin (membership s ! i ! from_index))
                           (py_max (Fin 0) (zero_percent s i from_index)))
                   (py_max (Fin 0) (fneg (zero_percent s i to_index)))"
    if "\<not> same_side s from_index to_index"
    using that by (simp add: transfer_percent_def)
  show "transfer_percent s i from_index to_index
          = Fin (min (membership s ! i ! from_index) mp)"
    if "same_side s from_index to_index
        \<and> minimum_percent s i from_index to_index = Fin mp"
    using that by (simp add: transfer_percent_def)
  show "transfer_percent s i from_index to_index = Fin (membership s ! i ! from_index)"
    if "same_side s from_index to_index
        \<and> (minimum_percent s i from_index to_index = NaN
             \<or> minimum_percent s i from_index to_index = PInf)"
    using that by (auto simp: transfer_percent_def py_min_def flt_def)
  show "transfer_percent s i from_index to_index
          = Fin (min (min (membership s ! i ! from_index) (max 0 zf)) (max 0 (- zt)))"
    if "\<not> same_side s from_index to_index
        \<and> zero_percent s i from_index = Fin zf \<and> zero_percent s i to_index = Fin zt"
    using that by (simp add: transfer_percent_def)
  show "\<exists>a b c. minimum_percent s i from_index to_index = Fin a
                \<and> zero_percent s i from_index = Fin b
                \<and> zero_percent s i to_index = Fin c"
    if "np_sum (vmul (weights s) (vsquare (X_features s ! i))) \<noteq> 0"
    using that by (simp add: minimum_percent_def zero_percent_def)
  show "\<exists>q. transfer_percent s i from_index to_index = Fin q" if "nonneg_weights s"
    using transfer_percent_Fin [OF minimum_percent_not_NInf [OF assms(1) that assms(2-4)]] .
  show "\<exists>s'. transfer s i from_index to_index = Inr s'
           \<and> (from_index \<noteq> to_index \<longrightarrow>
                 membership s ! i ! from_index - membership s' ! i ! from_index = p
               \<and> membership s' ! i ! to_index - membership s ! i ! to_index = p)"
    if tp: "transfer_percent s i from_index to_index = Fin p"
  proof -
    have rows: "i < length (membership s)" "from_index < length (membership s ! i)"
      "to_index < length (membership s ! i)"
      using well_shaped_rows [OF assms(1,2)] assms(3,4) by simp_all
    let ?s' = "move_mass s i from_index to_index p"
    have "transfer s i from_index to_index = Inr ?s'"
      using tp by (simp add: transfer_Inr)
    moreover have "membership s ! i ! from_index - membership ?s' ! i ! from_index = p"
      "membership ?s' ! i ! to_index - membership s ! i ! to_index = p"
      if "from_index \<noteq> to_index"
      using rows that by (simp_all add: move_mass_entry_from move_mass_entry_to)
    ultimately show ?thesis by blast
  qed
qed

theorem transfer_amount_by_side_witness:
  "well_shaped ex4 \<and> 1 < N ex4 \<and> 0 < nat (k ex4) \<and> 1 < nat (k ex4)
   \<and> \<not> same_side ex4 0 1
   \<and> zero_percent ex4 1 0 = Fin 2 \<and> zero_percent ex4 1 1 = Fin (- 2)
   \<and> transfer_percent ex4 1 0 1 = Fin (min (min (membership ex4 ! 1 ! 0) (max 0 2)) (max 0 (- (- 2))))
   \<and> well_shaped ex8 \<and> 1 < N ex8 \<and> 1 < nat (k ex8) \<and> 0 < nat (k ex8)
   \<and> same_side ex8 1 0 \<and> nonneg_weights ex8
   \<and> minimum_percent ex8 1 1 0 = NaN
   \<and> transfer_percent ex8 1 1 0 = Fin (membership ex8 ! 1 ! 1)
   \<and> (\<exists>s'. transfer ex8 1 1 0 = Inr s'
          \<and> membership ex8 ! 1 ! 1 - membership s' ! 1 ! 1 = membership ex8 ! 1 ! 1
          \<and> membership s' ! 1 ! 0 - membership ex8 ! 1 ! 0 = membership ex8 ! 1 ! 1)"
proof -
  have a: "well_shaped ex4" "1 < N ex4" "0 < nat (k ex4)" "1 < nat (k ex4)"
    and a': "\<not> same_side ex4 0 1" "zero_percent ex4 1 0 = Fin 2"
      "zero_percent ex4 1 1 = Fin (- 2)"
    by code_simp+
  have b: "well_shaped ex8" "1 < N ex8" "1 < nat (k ex8)" "0 < nat (k ex8)"
    and b': "same_side ex8 1 0" "nonneg_weights ex8" "minimum_percent ex8 1 1 0 = NaN"
      "(1::nat) \<noteq> 0"
    by code_simp+
  note A = transfer_amount_by_side [OF a, where zf = 2 and zt = "- 2"]
  note B = transfer_amount_by_side [OF b, where p = "membership ex8 ! 1 ! 1"]
  have pa: "transfer_percent ex4 1 0 1
      = Fin (min (min (membership ex4 ! 1 ! 0) (max 0 2)) (max 0 (- (- 2))))"
    using A a' by blast
  have pb: "transfer_percent ex8 1 1 0 = Fin (membership ex8 ! 1 ! 1)"
    using B b' by blast
  have "\<exists>s'. transfer ex8 1 1 0 = Inr s'
          \<and> membership ex8 ! 1 ! 1 - membership s' ! 1 ! 1 = membership ex8 ! 1 ! 1
          \<and> membership s' ! 1 ! 0 - membership ex8 ! 1 ! 0 = membership ex8 ! 1 ! 1"
    using B pb b' by blast
  with a a' b b' pa pb show ?thesis by blast
qed

subsection \<open>What \<open>fit\<close> checks\<close>

text \<open>
  C4, as stated, fails: \<open>fit\<close> rejects nothing before it calls the clustering, and it can
  return normally on inconsistent shapes. With three rows of \<open>Y\<close> and two rows of \<open>X\<close> the
  clustering is run on \<open>Y\<close>, its first two labels make the membership, the totals are zero
  and \<open>fit\<close> returns. With two columns of \<open>X\<close> and a single weight numpy broadcasts the weight,
  the totals are zero and \<open>fit\<close> returns.
\<close>

theorem fit_accepts_mismatch_counterexample:
  "length [[0], [1], [2 :: real]] \<noteq> length [[1], [- 1 :: real]]
   \<and> fit (sklearn_checks ex3_kmeans) 1 None 9 [[0], [1], [2]] [[1], [- 1]] [1] = (Inr ex3, 0)
   \<and> length [1 :: real] \<noteq> ncols [[1, - 1], [- 1, 1 :: real]]
   \<and> fit (sklearn_checks ex7_kmeans) 2 None 9 [[0], [1]] [[1, - 1], [- 1, 1]] [1]
       = (Inr ex7_short_w, 0)"
  by code_simp

text \<open>
  C4, amended. \<open>fit\<close> has no check of its own. Whatever the shapes of \<open>X\<close> and \<open>w\<close> and
  whatever \<open>k\<close>, it calls the clustering routine on \<open>Y\<close> and \<open>k\<close> first, and when the routine
  rejects them, as scikit-learn does for a cluster count below one or above the number of
  rows of \<open>Y\<close>, \<open>fit\<close> fails with the routine's error before any iteration. When the routine
  accepts and gives each of the \<open>N\<close> rows of the matrix \<open>X\<close> a label below \<open>k\<close>, the number of
  rows of \<open>Y\<close> is not compared with \<open>N\<close>, and the length of \<open>w\<close> is only met by numpy when the
  totals are first computed: \<open>fit\<close> fails there with \<open>ValueError\<close> if the length of \<open>w\<close> and
  the number of columns of \<open>X\<close> differ and neither is one, and builds its seed state
  otherwise.
\<close>

theorem fit_rejects_only_through_clustering:
  "(kmeans_fit k0 init 10 (10 powi (- t0)) Y = Inl e
      \<longrightarrow> fit kmeans_fit k0 init t0 Y X w = (Inl e, 0))
   \<and> (k0 < 1 \<or> int (length Y) < k0
      \<longrightarrow> fit (sklearn_checks kmeans_fit) k0 init t0 Y X w = (Inl KMeansError, 0))
   \<and> (kmeans_fit k0 init 10 (10 powi (- t0)) Y = Inr (centers, lbls)
       \<and> 0 \<le> k0 \<and> length X \<le> length lbls \<and> (\<forall>j<length X. lbls ! j < nat k0)
       \<and> X \<noteq> [] \<and> list_all (\<lambda>row. length row = ncols X) X
      \<longrightarrow> (if broadcastable (length w) (ncols X)
           then \<exists>s. fit_init kmeans_fit k0 init t0 Y X w = Inr s
                  \<and> N s = length X \<and> Y_features s = Y \<and> weights s = w
                  \<and> centroids s = centers
           else fit kmeans_fit k0 init t0 Y X w = (Inl ValueError, 0)))"
proof (intro conjI impI)
  assume "kmeans_fit k0 init 10 (10 powi (- t0)) Y = Inl e"
  then show "fit kmeans_fit k0 init t0 Y X w = (Inl e, 0)"
    by (simp add: fit_def fit_init_def)
next
  assume "k0 < 1 \<or> int (length Y) < k0"
  then have "sklearn_checks kmeans_fit k0 init 10 (10 powi (- t0)) Y = Inl KMeansError"
    by (simp add: sklearn_checks_def)
  then show "fit (sklearn_checks kmeans_fit) k0 init t0 Y X w = (Inl KMeansError, 0)"
    by (simp add: fit_def fit_init_def)
next
  assume a: "kmeans_fit k0 init 10 (10 powi (- t0)) Y = Inr (centers, lbls)
       \<and> 0 \<le> k0 \<and> length X \<le> length lbls \<and> (\<forall>j<length X. lbls ! j < nat k0)
       \<and> X \<noteq> [] \<and> list_all (\<lambda>row. length row = ncols X) X"
  have "\<exists>M. set_labels lbls [0..<length X] (replicate (length X) (replicate (nat k0) 0)) = Inr M"
    by (rule set_labels_succeeds [where K = "nat k0"]) (use a in auto)
  then obtain M where M: "set_labels lbls [0..<length X]
      (replicate (length X) (replicate (nat k0) 0)) = Inr M" ..
  show "if broadcastable (length w) (ncols X)
        then \<exists>s. fit_init kmeans_fit k0 init t0 Y X w = Inr s
               \<and> N s = length X \<and> Y_features s = Y \<and> weights s = w \<and> centroids s = centers
        else fit kmeans_fit k0 init t0 Y X w = (Inl ValueError, 0)"
    using a M by (simp add: fit_def fit_init_def generate_membership_def Let_def)
qed

theorem fit_rejects_only_through_clustering_witness:
  "sklearn_checks ex3_kmeans 0 None 10 (10 powi (- 9)) [[0], [1], [2]] = Inl KMeansError
   \<and> fit (sklearn_checks ex3_kmeans) 0 None 9 [[0], [1], [2]] [[1], [- 1]] [1, 2, 3]
       = (Inl KMeansError, 0)
   \<and> fit (sklearn_checks ex3_kmeans) 4 None 9 [[0], [1], [2]] [[1], [- 1]] [1]
       = (Inl KMeansError, 0)
   \<and> ex7_kmeans 2 None 10 (10 powi (- 9)) [[0], [1]] = Inr ([[0], [1]], [0, 1])
   \<and> broadcastable (length [1 :: real]) (ncols [[1, - 1], [- 1, 1 :: real]])
   \<and> (\<exists>s. fit_init ex7_kmeans 2 None 9 [[0], [1]] [[1, - 1], [- 1, 1]] [1] = Inr s
          \<and> N s = length [[1, - 1], [- 1, 1 :: real]] \<and> Y_features s = [[0], [1]]
          \<and> weights s = [1] \<and> centroids s = [[0], [1]])
   \<and> \<not> broadcastable (length [1, 2, 3 :: real]) (ncols [[1, - 1], [- 1, 1 :: real]])
   \<and> fit ex7_kmeans 2 None 9 [[0], [1]] [[1, - 1], [- 1, 1]] [1, 2, 3] = (Inl ValueError, 0)"
proof -
  have a: "sklearn_checks ex3_kmeans 0 None 10 (10 powi (- 9)) [[0], [1], [2]] = Inl KMeansError"
    by (simp add: sklearn_checks_def)
  have b: "ex7_kmeans 2 None 10 (10 powi (- 9)) [[0], [1]] = Inr ([[0], [1]], [0, 1])"
    by (simp add: ex7_kmeans_def)
  have c: "(0::int) \<le> 2 \<and> length [[1, - 1], [- 1, 1 :: real]] \<le> length [0, 1 :: nat]
           \<and> (\<forall>j<length [[1, - 1], [- 1, 1 :: real]]. [0, 1 :: nat] ! j < nat 2)
           \<and> [[1, - 1], [- 1, 1 :: real]] \<noteq> []
           \<and> list_all (\<lambda>row. length row = ncols [[1, - 1], [- 1, 1 :: real]])
                [[1, - 1], [- 1, 1]]"
    by (simp add: ncols_def less_Suc_eq numeral_2_eq_2)
  have d: "broadcastable (length [1 :: real]) (ncols [[1, - 1], [- 1, 1 :: real]])"
    "\<not> broadcastable (length [1, 2, 3 :: real]) (ncols [[1, - 1], [- 1, 1 :: real]])"
    by (simp_all add: broadcastable_def ncols_def)
  have e: "(4 :: int) < 1 \<or> int (length [[0], [1], [2 :: real]]) < 4" by simp
  note rej = fit_rejects_only_through_clustering
    [where kmeans_fit = "sklearn_checks ex3_kmeans" and ?k0.0 = 0 and init = None
       and ?t0.0 = 9 and Y = "[[0], [1], [2]]" and e = KMeansError
       and X = "[[1], [- 1]]" and w = "[1, 2, 3]"]
  note deg = fit_rejects_only_through_clustering
    [where kmeans_fit = ex3_kmeans and ?k0.0 = 4 and init = None
       and ?t0.0 = 9 and Y = "[[0], [1], [2]]" and X = "[[1], [- 1]]" and w = "[1]"]
  note acc = fit_rejects_only_through_clustering
    [where kmeans_fit = ex7_kmeans and ?k0.0 = 2 and init = None
       and ?t0.0 = 9 and Y = "[[0], [1]]" and centers = "[[0], [1]]" and lbls = "[0, 1]"
       and X = "[[1, - 1], [- 1, 1]]" and w = "[1]"]
  note bad = fit_rejects_only_through_clustering
    [where kmeans_fit = ex7_kmeans and ?k0.0 = 2 and init = None
       and ?t0.0 = 9 and Y = "[[0], [1]]" and centers = "[[0], [1]]" and lbls = "[0, 1]"
       and X = "[[1, - 1], [- 1, 1]]" and w = "[1, 2, 3]"]
  have 1: "fit (sklearn_checks ex3_kmeans) 0 None 9 [[0], [1], [2]] [[1], [- 1]] [1, 2, 3]
       = (Inl KMeansError, 0)"
    using rej a by blast
  have 2: "fit (sklearn_checks ex3_kmeans) 4 None 9 [[0], [1], [2]] [[1], [- 1]] [1]
       = (Inl KMeansError, 0)"
    using deg e by blast
  have 3: "\<exists>s. fit_init ex7_kmeans 2 None 9 [[0], [1]] [[1, - 1], [- 1, 1]] [1] = Inr s
          \<and> N s = length [[1, - 1], [- 1, 1 :: real]] \<and> Y_features s = [[0], [1]]
          \<and> weights s = [1] \<and> centroids s = [[0], [1]]"
  proof -
    from acc b c have "if broadcastable (length [1 :: real]) (ncols [[1, - 1], [- 1, 1 :: real]])
        then \<exists>s. fit_init ex7_kmeans 2 None 9 [[0], [1]] [[1, - 1], [- 1, 1]] [1] = Inr s
          \<and> N s = length [[1, - 1], [- 1, 1 :: real]] \<and> Y_features s = [[0], [1]]
          \<and> weights s = [1] \<and> centroids s = [[0], [1]]
        else fit ex7_kmeans 2 None 9 [[0], [1]] [[1, - 1], [- 1, 1]] [1] = (Inl ValueError, 0)"
      by blast
    with d(1) show ?thesis by (simp only: if_True)
  qed
  have 4: "fit ex7_kmeans 2 None 9 [[0], [1]] [[1, - 1], [- 1, 1]] [1, 2, 3] = (Inl ValueError, 0)"
  proof -
    from bad b c
    have "if broadcastable (length [1, 2, 3 :: real]) (ncols [[1, - 1], [- 1, 1 :: real]])
        then \<exists>s. fit_init ex7_kmeans 2 None 9 [[0], [1]] [[1, - 1], [- 1, 1]] [1, 2, 3] = Inr s
          \<and> N s = length [[1, - 1], [- 1, 1 :: real]] \<and> Y_features s = [[0], [1]]
          \<and> weights s = [1, 2, 3] \<and> centroids s = [[0], [1]]
        else fit ex7_kmeans 2 None 9 [[0], [1]] [[1, - 1], [- 1, 1]] [1, 2, 3]
               = (Inl ValueError, 0)"
      by blast
    with d(2) show ?thesis by (simp only: if_False)
  qed
  from a b d 1 2 3 4 show ?thesis by blast
qed

subsection \<open>The minimum feasible percent\<close>

text \<open>
  C5. For a unit whose weighted squared norm is not zero and two different clusters, moving
  the amount \<open>minimum_percent\<close> from \<open>M[i, from]\<close> to \<open>M[i, to]\<close> and recomputing \<open>Tij\<close> makes
  the two clusters' rows of \<open>Tij\<close> agree in their weighted product with the unit's auxiliary
  vector.
\<close>

theorem minimum_percent_equalizes:
  assumes "well_shaped s" "i < N s" "from_index < nat (k s)" "to_index < nat (k s)"
    and "from_index \<noteq> to_index"
    and "np_sum (vmul (weights s) (vsquare (X_features s ! i))) \<noteq> 0"
    and "Tij s = generate_Tij s"
  shows "\<exists>p. minimum_percent s i from_index to_index = Fin p
           \<and> np_sum (vmul (vmul (weights s) (X_features s ! i))
                          (generate_Tij (move_mass s i from_index to_index p) ! from_index))
             = np_sum (vmul (vmul (weights s) (X_features s ! i))
                            (generate_Tij (move_mass s i from_index to_index p) ! to_index))"
proof -
  let ?x = "X_features s ! i" and ?w = "weights s"
  let ?u = "vmul ?w ?x"
  let ?Q = "np_sum (vmul ?w (vsquare ?x))"
  let ?A = "\<lambda>c. np_sum (vmul ?u (generate_Tij s ! c))"
  let ?p = "(?A from_index - ?A to_index) / (2 * ?Q)"
  have len: "length ?w = m s" "length ?x = m s" "length ?u = m s"
    "length (generate_Tij s ! from_index) = m s" "length (generate_Tij s ! to_index) = m s"
    using assms(1-4) by (simp_all add: well_shaped_weights well_shaped_rows length_generate_Tij_row)
  have uQ: "np_sum (vmul ?u ?x) = ?Q"
    using len by (simp add: np_sum_vmul_self [where n = "m s"])
  have mp: "minimum_percent s i from_index to_index = Fin ?p"
    using assms(6,7) len
    by (simp add: minimum_percent_def np_sum_vmul_vsub [where n = "m s"])
  have f: "np_sum (vmul ?u (generate_Tij (move_mass s i from_index to_index p) ! from_index))
           = ?A from_index - p * ?Q" for p
    using weighted_row_move_mass [OF assms(1-5) assms(3) len(3), of p] assms(5) uQ by simp
  have t: "np_sum (vmul ?u (generate_Tij (move_mass s i from_index to_index p) ! to_index))
           = ?A to_index + p * ?Q" for p
    using weighted_row_move_mass [OF assms(1-5) assms(4) len(3), of p] assms(5) uQ by simp
  have "?A from_index - ?p * ?Q = ?A to_index + ?p * ?Q"
    using assms(6) by (simp add: field_simps)
  with f [of ?p] t [of ?p] mp show ?thesis by metis
qed

theorem minimum_percent_equalizes_witness:
  "well_shaped ex4 \<and> 1 < N ex4 \<and> 0 < nat (k ex4) \<and> 1 < nat (k ex4) \<and> (0::nat) \<noteq> 1
   \<and> np_sum (vmul (weights ex4) (vsquare (X_features ex4 ! 1))) \<noteq> 0
   \<and> Tij ex4 = generate_Tij ex4
   \<and> (\<exists>p. minimum_percent ex4 1 0 1 = Fin p
           \<and> np_sum (vmul (vmul (weights ex4) (X_features ex4 ! 1))
                          (generate_Tij (move_mass ex4 1 0 1 p) ! 0))
             = np_sum (vmul (vmul (weights ex4) (X_features ex4 ! 1))
                            (generate_Tij (move_mass ex4 1 0 1 p) ! 1)))"
proof -
  have h: "well_shaped ex4" "1 < N ex4" "0 < nat (k ex4)" "1 < nat (k ex4)" "(0::nat) \<noteq> 1"
    "np_sum (vmul (weights ex4) (vsquare (X_features ex4 ! 1))) \<noteq> 0"
    "Tij ex4 = generate_Tij ex4"
    by code_simp+
  from minimum_percent_equalizes [OF h] h show ?thesis by blast
qed

subsection \<open>The totals of the two clusters of a transfer\<close>

lemma convex_abs_sum:
  fixes a b th :: real
  assumes "0 \<le> th" "th \<le> 1"
  shows "\<bar>a - th * (a - b) / 2\<bar> + \<bar>b + th * (a - b) / 2\<bar> \<le> \<bar>a\<bar> + \<bar>b\<bar>"
proof -
  have c: "0 \<le> 1 - th / 2" "0 \<le> th / 2" using assms by simp_all
  have "a - th * (a - b) / 2 = (1 - th / 2) * a + (th / 2) * b"
    by (simp add: field_simps)
  then have "\<bar>a - th * (a - b) / 2\<bar> \<le> \<bar>(1 - th / 2) * a\<bar> + \<bar>(th / 2) * b\<bar>"
    by (simp only: abs_triangle_ineq)
  then have 1: "\<bar>a - th * (a - b) / 2\<bar> \<le> (1 - th / 2) * \<bar>a\<bar> + (th / 2) * \<bar>b\<bar>"
    using c by (simp only: abs_mult abs_of_nonneg)
  have "b + th * (a - b) / 2 = (th / 2) * a + (1 - th / 2) * b"
    by (simp add: field_simps)
  then have "\<bar>b + th * (a - b) / 2\<bar> \<le> \<bar>(th / 2) * a\<bar> + \<bar>(1 - th / 2) * b\<bar>"
    by (simp only: abs_triangle_ineq)
  then have 2: "\<bar>b + th * (a - b) / 2\<bar> \<le> (th / 2) * \<bar>a\<bar> + (1 - th / 2) * \<bar>b\<bar>"
    using c by (simp only: abs_mult abs_of_nonneg)
  have "(1 - th / 2) * \<bar>a\<bar> + (th / 2) * \<bar>b\<bar> + ((th / 2) * \<bar>a\<bar> + (1 - th / 2) * \<bar>b\<bar>)
        = \<bar>a\<bar> + \<bar>b\<bar>"
    by (simp add: field_simps)
  with 1 2 show ?thesis by linarith
qed

lemma partial_shift_abs_sum:
  fixes A B r d a :: real
  assumes "0 < r" "0 \<le> d" "d \<le> r" "r * a = (A - B) / 2"
  shows "\<bar>A - d * a\<bar> + \<bar>B + d * a\<bar> \<le> \<bar>A\<bar> + \<bar>B\<bar>"
proof -
  have "d * a = (d / r) * (r * a)" using assms(1) by simp
  then have da: "d * a = (d / r) * (A - B) / 2" using assms(4) by simp
  have "0 \<le> d / r" "d / r \<le> 1" using assms(1-3) by simp_all
  from convex_abs_sum [OF this, of A B] show ?thesis unfolding da by simp
qed

lemma np_sum_vmul_one:
  "length u = 1 \<Longrightarrow> length v = 1 \<Longrightarrow> np_sum (vmul u v) = u ! 0 * v ! 0"
  by (simp add: np_sum_vmul [where n = 1])

text \<open>
  C6, as stated, fails with two auxiliary variables: in the state \<open>ex6\<close>, which is the state
  of \<open>fit\<close> after the seed clustering, the record of least score is the move of unit 0 from
  cluster 0 to cluster 1, its score is finite, both totals are positive, and the transfer
  takes \<open>|Ti[0]| + |Ti[1]|\<close> from \<open>3/2\<close> to \<open>5/2\<close>.
\<close>

theorem same_side_transfer_increases_counterexample:
  "fit_init ex6_kmeans 2 None 9 [[1], [0], [3]] [[2, 0], [0, - (3 / 2)], [0, 1]] [1, 1] = Inr ex6
   \<and> all_costs ex6 = [(Fin (625000000000000000 / 1708333333166666667), 0, 0, 1),
                       (Fin (4375000000000000000 / 5124999999500000001), 1, 0, 1),
                       (Fin (3125000000000000000 / 5125000000500000001), 2, 1, 0)]
   \<and> get_transfer_records ex6 1 = Inr [(0, 0, 1)]
   \<and> same_side ex6 0 1
   \<and> apply_record ex6 (0, 0, 1) = Inr ex6_moved
   \<and> \<bar>Ti ex6 ! 0\<bar> + \<bar>Ti ex6 ! 1\<bar> = 3 / 2
   \<and> \<bar>Ti ex6_moved ! 0\<bar> + \<bar>Ti ex6_moved ! 1\<bar> = 5 / 2"
  by code_simp

text \<open>
  C6, amended. With a single auxiliary variable, a transfer whose score is finite, taken
  from a positive entry \<open>M[i, from]\<close> between two clusters whose totals are on the same
  side of zero, does not increase \<open>|Ti[from]| + |Ti[to]|\<close>, the totals being recomputed
  from the new membership.
\<close>

theorem single_variable_transfer_not_worse:
  assumes ws: "well_shaped s" and m1: "m s = 1" and i: "i < N s"
    and f: "from_index < nat (k s)" and t: "to_index < nat (k s)"
    and sync: "Tij s = generate_Tij s" "Ti s = generate_Ti s"
    and fin: "transfer_score s i from_index to_index = Fin c"
    and side: "same_side s from_index to_index"
    and pos: "0 < membership s ! i ! from_index"
  shows "\<exists>s'. transfer s i from_index to_index = Inr s'
           \<and> \<bar>generate_Ti s' ! from_index\<bar> + \<bar>generate_Ti s' ! to_index\<bar>
               \<le> \<bar>Ti s ! from_index\<bar> + \<bar>Ti s ! to_index\<bar>"
proof -
  let ?w = "weights s" and ?x = "X_features s ! i"
  let ?Tf = "Tij s ! from_index" and ?Tt = "Tij s ! to_index"
  define w0 x0 Tf Tt where "w0 = ?w ! 0" and "x0 = ?x ! 0" and "Tf = ?Tf ! 0" and "Tt = ?Tt ! 0"
  have len: "length ?w = 1" "length ?x = 1" "length ?Tf = 1" "length ?Tt = 1"
    using ws m1 i f t
    by (simp_all add: well_shaped_weights well_shaped_rows well_shaped_Tij_row)
  have num: "np_sum (vmul (vmul ?w ?x) (vsub ?Tf ?Tt)) = w0 * x0 * (Tf - Tt)"
    using len by (simp add: np_sum_vmul_one nth_vmul nth_vsub w0_def x0_def Tf_def Tt_def)
  have den: "np_sum (vmul ?w (vsquare ?x)) = w0 * x0\<^sup>2"
    using len by (simp add: np_sum_vmul_one nth_vsquare w0_def x0_def)
  have wx: "np_sum (vmul ?w ?x) = w0 * x0"
    using len by (simp add: np_sum_vmul_one w0_def x0_def)
  have mp: "minimum_percent s i from_index to_index
            = fdiv (w0 * x0 * (Tf - Tt)) (2 * (w0 * x0\<^sup>2))"
    by (simp add: minimum_percent_def num den)
  have gate: "flt (Fin (tol s)) (minimum_percent s i from_index to_index)"
    using fin by (auto simp: transfer_score_def split: if_splits)
  have nz: "w0 \<noteq> 0" "x0 \<noteq> 0"
    using gate unfolding mp by (auto simp: fdiv_def flt_def)
  define r where "r = w0 * x0 * (Tf - Tt) / (2 * (w0 * x0\<^sup>2))"
  have mpr: "minimum_percent s i from_index to_index = Fin r"
    unfolding mp r_def using nz by simp
  have r: "0 < r" using gate tol_pos [of s] unfolding mpr by simp
  have ne: "from_index \<noteq> to_index"
  proof
    assume "from_index = to_index"
    then have "r = 0" by (simp add: r_def Tf_def Tt_def)
    with r show False by simp
  qed
  define d where "d = min (membership s ! i ! from_index) r"
  have d: "0 \<le> d" "d \<le> r" using pos r by (simp_all add: d_def)
  have "transfer_percent s i from_index to_index = Fin d"
    using side by (simp add: transfer_percent_def mpr d_def)
  then have tr: "transfer s i from_index to_index = Inr (move_mass s i from_index to_index d)"
    by (simp add: transfer_Inr)
  let ?s' = "move_mass s i from_index to_index d"
  have Tif: "generate_Ti ?s' ! from_index = Ti s ! from_index - d * (w0 * x0)"
    using weighted_row_move_mass [OF ws i f t ne f, of ?w d] ne f len m1 wx sync
    by (simp add: generate_Ti_nth)
  have Tit: "generate_Ti ?s' ! to_index = Ti s ! to_index + d * (w0 * x0)"
    using weighted_row_move_mass [OF ws i f t ne t, of ?w d] ne t len m1 wx sync
    by (simp add: generate_Ti_nth)
  have Ti_f: "Ti s ! from_index = w0 * Tf"
    using f len sync
    by (simp add: generate_Ti_nth np_sum_vmul_one w0_def Tf_def)
  have Ti_t: "Ti s ! to_index = w0 * Tt"
    using t len sync
    by (simp add: generate_Ti_nth np_sum_vmul_one w0_def Tt_def)
  have half: "r * (w0 * x0) = (Ti s ! from_index - Ti s ! to_index) / 2"
    unfolding Ti_f Ti_t r_def using nz by (simp add: field_simps power2_eq_square)
  from partial_shift_abs_sum [OF r d half]
  have "\<bar>generate_Ti ?s' ! from_index\<bar> + \<bar>generate_Ti ?s' ! to_index\<bar>
          \<le> \<bar>Ti s ! from_index\<bar> + \<bar>Ti s ! to_index\<bar>"
    unfolding Tif Tit .
  with tr show ?thesis by blast
qed

theorem single_variable_transfer_not_worse_witness:
  "well_shaped ex1v \<and> m ex1v = 1 \<and> 0 < N ex1v \<and> 0 < nat (k ex1v) \<and> 1 < nat (k ex1v)
   \<and> Tij ex1v = generate_Tij ex1v \<and> Ti ex1v = generate_Ti ex1v
   \<and> transfer_score ex1v 0 0 1 = Fin (1000000000000000000 / 4000000004000000001)
   \<and> same_side ex1v 0 1 \<and> 0 < membership ex1v ! 0 ! 0
   \<and> (\<exists>s'. transfer ex1v 0 0 1 = Inr s'
           \<and> \<bar>generate_Ti s' ! 0\<bar> + \<bar>generate_Ti s' ! 1\<bar> \<le> \<bar>Ti ex1v ! 0\<bar> + \<bar>Ti ex1v ! 1\<bar>)"
proof -
  have h: "well_shaped ex1v" "m ex1v = 1" "0 < N ex1v" "0 < nat (k ex1v)" "1 < nat (k ex1v)"
    "Tij ex1v = generate_Tij ex1v" "Ti ex1v = generate_Ti ex1v"
    "transfer_score ex1v 0 0 1 = Fin (1000000000000000000 / 4000000004000000001)"
    "same_side ex1v 0 1" "0 < membership ex1v ! 0 ! 0"
    by code_simp+
  from single_variable_transfer_not_worse [OF h] h show ?thesis by blast
qed

subsection \<open>A state within the tolerance\<close>

text \<open>
  C7, as stated, fails: in the state \<open>ex7\<close>, which is the state of \<open>fit\<close> after the seed
  clustering, all totals are zero, and the scoring step gives both of its records a finite
  score.
\<close>

theorem converged_scores_finite_counterexample:
  "fit_init ex7_kmeans 2 None 9 [[0], [1]] [[1, - 1], [- 1, 1]] [1, 1] = Inr ex7
   \<and> stop_codition ex7 (tolerance ex7)
   \<and> all_costs ex7 = [(Fin (500000000000000000 / 4000000000000000001), 0, 0, 1),
                       (Fin (500000000000000000 / 4000000000000000001), 1, 1, 0)]"
  by code_simp

text \<open>
  C7, amended. When every total is within the tolerance at the start of an iteration, the
  loop ends there: it returns the state as it is, membership included, and the counter as
  it is. The scoring step is not run.
\<close>

theorem converged_loop_exits_unchanged:
  "stop_codition s (tolerance s) \<Longrightarrow> fit_loop s it = (Inr s, it)"
  by (subst fit_loop_unfold) simp

theorem converged_loop_exits_unchanged_witness:
  "stop_codition ex7 (tolerance ex7) \<and> fit_loop ex7 0 = (Inr ex7, 0)"
proof -
  have h: "stop_codition ex7 (tolerance ex7)" by code_simp
  from converged_loop_exits_unchanged [OF h] h show ?thesis by simp
qed

subsection \<open>The denominator of the score\<close>

text \<open>
  C8. On every reachable state and for weights that are not negative the denominator of the
  score, with the stabilizer \<open>1e-9\<close> that is there to keep it from zero, is to be nonzero,
  so that the score never divides by zero. The code misses this where the two rows of \<open>Tij\<close>
  differ by exactly minus the stabilizer: in the state \<open>ex8\<close>, which is the state of \<open>fit\<close>
  after the seed clustering, with the weight \<open>1\<close>, the feasibility test of the move of unit 0
  from cluster 0 to cluster 1 passes, the denominator of its score is zero, and the division
  by it gives \<open>inf\<close>.
\<close>

theorem score_denominator_zero_at_stabilizer:
  "fit_init ex8_kmeans 2 None 9 [[0], [1]] [[- (1 / 10 ^ 9)], [0]] [1] = Inr ex8
   \<and> weights ex8 = [1]
   \<and> Tij ex8 ! 0 = [- (1 / 10 ^ 9)] \<and> Tij ex8 ! 1 = [0]
   \<and> minimum_percent ex8 0 0 1 = Fin (1 / 2)
   \<and> flt (Fin (tol ex8)) (minimum_percent ex8 0 0 1)
   \<and> weighet_norm ex8 (vadd_scalar (vsub (Tij ex8 ! 0) (Tij ex8 ! 1)) (1 / 10 ^ 9)) = 0
   \<and> transfer_score ex8 0 0 1 = PInf"
  by code_simp

subsection \<open>The iteration cap\<close>

text \<open>
  C9. The loop of \<open>fit\<close> is a total function of the state and the counter, and the counter it
  ends with, which counts the iterations it has completed, is at most 100 whatever the
  input and whether or not the totals ever come within the tolerance.
\<close>

theorem fit_within_iteration_cap:
  "snd (fit_loop s 0) \<le> 100 \<and> snd (fit kmeans_fit k0 init t0 Y X w) \<le> 100"
proof
  show "snd (fit_loop s 0) \<le> 100" using fit_loop_counter [of s 0] by simp
  show "snd (fit kmeans_fit k0 init t0 Y X w) \<le> 100"
    using fit_loop_counter [of _ 0] by (simp add: fit_def split: sum.splits)
qed

subsection \<open>The straddling branch\<close>

text \<open>
  C10. In the branch of \<open>_transfer\<close> where the two totals straddle zero, the amount moved is
  a number between \<open>0\<close> and \<open>M[i, from]\<close> whenever \<open>M[i, from]\<close> is not negative, so the
  transfer leaves \<open>M[i, from]\<close> non-negative and does not decrease \<open>M[i, to]\<close>.
\<close>

theorem straddle_transfer_within_mass:
  assumes "well_shaped s" "i < N s" "from_index < nat (k s)" "to_index < nat (k s)"
    and "\<not> same_side s from_index to_index"
    and "0 \<le> membership s ! i ! from_index"
  shows "\<exists>p s'. transfer_percent s i from_index to_index = Fin p
           \<and> 0 \<le> p \<and> p \<le> membership s ! i ! from_index
           \<and> transfer s i from_index to_index = Inr s'
           \<and> 0 \<le> membership s' ! i ! from_index
           \<and> membership s ! i ! to_index \<le> membership s' ! i ! to_index"
proof -
  obtain p where p: "transfer_percent s i from_index to_index = Fin p" "0 \<le> p"
    "p \<le> membership s ! i ! from_index"
    using straddle_percent [OF assms(5,6)] by blast
  have rows: "i < length (membership s)" "from_index < length (membership s ! i)"
    "to_index < length (membership s ! i)"
    using assms(1-4) by (simp_all add: well_shaped_def list_all_length)
  have ne: "from_index \<noteq> to_index"
    using assms(5) by (rule not_same_side_distinct)
  let ?s' = "move_mass s i from_index to_index p"
  have "transfer s i from_index to_index = Inr ?s'"
    using p(1) by (simp add: transfer_Inr)
  moreover have "0 \<le> membership ?s' ! i ! from_index"
    using p rows ne by (simp add: move_mass_entry_from)
  moreover have "membership s ! i ! to_index \<le> membership ?s' ! i ! to_index"
    using p rows ne by (simp add: move_mass_entry_to)
  ultimately show ?thesis using p by blast
qed

theorem straddle_transfer_within_mass_witness:
  "well_shaped ex4 \<and> 1 < N ex4 \<and> 0 < nat (k ex4) \<and> 1 < nat (k ex4) \<and> \<not> same_side ex4 0 1
   \<and> 0 \<le> membership ex4 ! 1 ! 0
   \<and> (\<exists>p s'. transfer_percent ex4 1 0 1 = Fin p \<and> 0 \<le> p \<and> p \<le> membership ex4 ! 1 ! 0
        \<and> transfer ex4 1 0 1 = Inr s' \<and> 0 \<le> membership s' ! 1 ! 0
        \<and> membership ex4 ! 1 ! 1 \<le> membership s' ! 1 ! 1)"
proof -
  have h: "well_shaped ex4" "1 < N ex4" "0 < nat (k ex4)" "1 < nat (k ex4)" "\<not> same_side ex4 0 1"
    "0 \<le> membership ex4 ! 1 ! 0"
    by code_simp+
  from straddle_transfer_within_mass [OF h] h show ?thesis by blast
qed

end
